theory Spec2Isabelle
  imports Complex_Main "HOL-Library.AList" "HOL-Library.Char_ord" "HOL-Library.List_Lexorder"
begin

section \<open>Python strings and POSIX paths\<close>

text \<open>
  Paths and file names are byte strings (\<open>string\<close>); the text held in files is a list
  of Unicode code points (\<open>ustring\<close>), because \<open>str.strip\<close> works on code points.
\<close>

type_synonym path = string
type_synonym ustring = "nat list"

definition ascii :: "string \<Rightarrow> ustring" where
  "ascii s = map of_char s"

text \<open>
  \<open>str.lower\<close>, on the letters A to Z. No other character lowers to one of the
  characters of \<open>.mp3\<close>, the only string a lowered path is compared with.
\<close>

definition lower_char :: "char \<Rightarrow> char" where
  "lower_char c = (if CHR ''A'' \<le> c \<and> c \<le> CHR ''Z'' then char_of (of_char c + (32::nat)) else c)"

definition lower :: "string \<Rightarrow> string" where
  "lower s = map lower_char s"

definition endswith :: "'a list \<Rightarrow> 'a list \<Rightarrow> bool" where
  "endswith s suffix = (length suffix \<le> length s \<and> drop (length s - length suffix) s = suffix)"

text \<open>\<open>s.rsplit(sep, 1)\<close>: one split at the last separator, or the string alone.\<close>

definition rsplit1 :: "char \<Rightarrow> string \<Rightarrow> string list" where
  "rsplit1 sep s =
     (if sep \<in> set s
      then [rev (tl (dropWhile (\<lambda>c. c \<noteq> sep) (rev s))), rev (takeWhile (\<lambda>c. c \<noteq> sep) (rev s))]
      else [s])"

text \<open>\<open>os.path.join\<close> of two parts, \<open>os.path.basename\<close> and \<open>os.path.splitext\<close> (posixpath).\<close>

definition path_join :: "path \<Rightarrow> path \<Rightarrow> path" where
  "path_join a b =
     (if b \<noteq> [] \<and> hd b = CHR ''/'' then b
      else if a = [] \<or> last a = CHR ''/'' then a @ b
      else a @ ''/'' @ b)"

definition basename :: "path \<Rightarrow> path" where
  "basename p = rev (takeWhile (\<lambda>c. c \<noteq> CHR ''/'') (rev p))"

definition rfind :: "char \<Rightarrow> string \<Rightarrow> int" where
  "rfind c s =
     (if c \<in> set s then int (length s) - 1 - int (length (takeWhile (\<lambda>d. d \<noteq> c) (rev s)))
      else - 1)"

text \<open>
  \<open>splitext\<close> cuts at the last dot of the last component, unless only dots stand
  between the start of that component and the dot (the loop of \<open>genericpath._splitext\<close>).
\<close>

definition splitext :: "path \<Rightarrow> path \<times> path" where
  "splitext p =
     (let sepIndex = rfind CHR ''/'' p; dotIndex = rfind CHR ''.'' p
      in if dotIndex > sepIndex \<and>
            list_ex (\<lambda>c. c \<noteq> CHR ''.'')
              (take (nat (dotIndex - (sepIndex + 1))) (drop (nat (sepIndex + 1)) p))
         then (take (nat dotIndex) p, drop (nat dotIndex) p)
         else (p, []))"

text \<open>\<open>str(n)\<close> for a natural number: its decimal digits.\<close>

fun str_nat :: "nat \<Rightarrow> string" where
  "str_nat n =
     (if n < 10 then [char_of (48 + n)] else str_nat (n div 10) @ [char_of (48 + n mod 10)])"

declare str_nat.simps [simp del]

text \<open>
  \<open>str.isspace\<close> on one code point: the white space of Unicode as CPython lists it.
\<close>

definition isspace :: "nat \<Rightarrow> bool" where
  "isspace c =
     ((9 \<le> c \<and> c \<le> 13) \<or> (28 \<le> c \<and> c \<le> 32) \<or> c = 133 \<or> c = 160 \<or> c = 5760 \<or>
      (8192 \<le> c \<and> c \<le> 8202) \<or> c = 8232 \<or> c = 8233 \<or> c = 8239 \<or> c = 8287 \<or> c = 12288)"

definition strip :: "ustring \<Rightarrow> ustring" where
  "strip s = rev (dropWhile isspace (rev (dropWhile isspace s)))"

text \<open>\<open>str.strip\<close> on a path read from the terminal (byte string: the ASCII white space).\<close>

definition strip_path :: "string \<Rightarrow> string" where
  "strip_path s =
     rev (dropWhile (\<lambda>c. isspace (of_char c) \<and> of_char c < (128::nat))
       (rev (dropWhile (\<lambda>c. isspace (of_char c) \<and> of_char c < (128::nat)) s)))"

text \<open>\<open>" ".join(parts)\<close>.\<close>

fun join_space :: "ustring list \<Rightarrow> ustring" where
  "join_space [] = []"
| "join_space [x] = x"
| "join_space (x # y # ys) = x @ [32] @ join_space (y # ys)"

section \<open>Files, processes and the observable trace\<close>

text \<open>
  The filesystem is a finite table from paths to nodes. A path is the string the program
  uses; two strings naming one file are not identified. The primitives below succeed
  whenever the node they need is there (no permissions, no devices).
\<close>

datatype node = File ustring | Dir

type_synonym filesystem = "(path \<times> node) list"

definition path_exists :: "filesystem \<Rightarrow> path \<Rightarrow> bool" where
  "path_exists fs p = (map_of fs p \<noteq> None)"

definition isdir :: "filesystem \<Rightarrow> path \<Rightarrow> bool" where
  "isdir fs p = (map_of fs p = Some Dir)"

text \<open>\<open>os.listdir\<close>: the names directly under a directory.\<close>

definition child_name :: "path \<Rightarrow> path \<Rightarrow> string option" where
  "child_name d p =
     (let pre = (if d \<noteq> [] \<and> last d = CHR ''/'' then d else d @ ''/'');
          n = drop (length pre) p
      in if take (length pre) p = pre \<and> n \<noteq> [] \<and> CHR ''/'' \<notin> set n then Some n else None)"

definition listdir :: "filesystem \<Rightarrow> path \<Rightarrow> string list" where
  "listdir fs d = remdups (List.map_filter (\<lambda>(p, _). child_name d p) fs)"

text \<open>
  What the program can raise or exit with. An uncaught exception ends the process with
  status 1, \<open>sys.exit(n)\<close> with status \<open>n\<close>.
\<close>

datatype exn =
    CalledProcessError
  | OSError
  | ShutilError
  | ValueError
  | AttributeError
  | EOFError
  | RuntimeError

datatype abort = SystemExit nat | Uncaught exn

fun exit_status :: "abort \<Rightarrow> nat" where
  "exit_status (SystemExit n) = n"
| "exit_status (Uncaught e) = 1"

text \<open>JSON values, as \<open>json.load\<close> returns them; a dict is an association list.\<close>

datatype json =
    JNull
  | JBool bool
  | JNum real
  | JStr string
  | JArr "json list"
  | JObj "(string \<times> json) list"

text \<open>One detected speech interval, in samples: the dict with keys start and end.\<close>

record segment =
  seg_start :: int
  seg_end :: int

type_synonym wav = "real list"

text \<open>
  The external commands the program runs, by their arguments: the two package-manager
  commands (with sudo or not), git clone, the two cmake steps (working directory; the
  Release configuration of Windows), and ffmpeg and whisper-cli.
\<close>

datatype cmd =
    AptGetUpdate bool
  | AptGetInstall bool
  | GitClone
  | CMakeConfigure path
  | CMakeBuild path bool
  | FfmpegVersion
  | FfmpegConvert path path
  | FfmpegCut path real real path
  | WhisperCli path path "path list"

text \<open>
  What an external process did: its exit status (\<open>None\<close> when the program could not
  be started), the lines it printed when its output is piped, and the filesystem it left.
\<close>

record proc =
  status :: "nat option"
  stdout_lines :: "ustring list"
  fs_after :: filesystem

text \<open>
  Everything the program does not own: the platform, the working directory, the terminal,
  the external processes, the JSON parser and the voice-activity model.
\<close>

record env =
  platform_system :: string
  platform_machine :: string
  geteuid :: nat
  base_path :: path
  getcwd :: path
  stdin_line :: "string option"
  run :: "cmd \<Rightarrow> filesystem \<Rightarrow> proc"
  json_load :: "ustring \<Rightarrow> json option"
  hub_load :: "filesystem \<Rightarrow> filesystem option"
  read_audio :: "filesystem \<Rightarrow> path \<Rightarrow> wav option"
  get_speech_timestamps :: "wav \<Rightarrow> json list \<Rightarrow> segment list option"

text \<open>
  The console messages, one constructor for each \<open>print\<close> and each
  \<open>progress_callback\<close> of the source (the callback of \<open>main\<close> prints the message
  with its percentage).
\<close>

datatype progress =
    CheckingSystem
  | OsArch string string
  | InstallingPackages
  | WhisperMissing
  | WhisperPresent
  | InstallDone
  | ErrorOccurred exn
  | Cloning
  | CloneFailed
  | UsingPrebundled
  | RepoPresent
  | EncoderDirCopied
  | EncoderDirPresent
  | EncoderFileCopied
  | EncoderFilePresent
  | ModelDirCopied
  | ModelDirPresent
  | ModelFileCopied
  | ModelFilePresent
  | CMakeConfiguring
  | ProjectBuilding
  | BuildDone

datatype msg =
    Progress progress nat
  | UnsupportedOS
  | ConfigLoadError exn
  | CurrentVadConfig json
  | FfmpegNotInstalled
  | AlreadyMp3 path
  | Converting path path
  | ConvertFailed path
  | LoadingVadModel
  | LoadingAudio path
  | DetectingSpeech
  | DetectedCount nat
  | SkipSegment nat
  | CuttingSegment nat nat
  | SplitDone
  | NewlinesRemoved path
  | FolderMissing path
  | WhisperCount nat
  | WhisperStarting
  | WhisperLine ustring
  | Transcribed string path
  | TxtMissing path
  | TranscribeDone path
  | FirstRun
  | DefaultFileMissing
  | Prompt
  | InputFileMissing
  | ProcessingStart
  | ProcessingDone

text \<open>
  The trace: what the program did, in order. Console output, external commands and calls
  of the voice-activity library, and the program's own changes of the filesystem.
\<close>

datatype event =
    Print msg
  | Exec cmd
  | HubLoad
  | ReadAudio path
  | GetSpeechTimestamps "json list"
  | Wrote path
  | Moved path path
  | MadeDirs path
  | Copied path path

record world =
  fsys :: filesystem
  trace :: "event list"

definition emit :: "event \<Rightarrow> world \<Rightarrow> world" where
  "emit e w = w\<lparr>trace := trace w @ [e]\<rparr>"

definition print :: "msg \<Rightarrow> world \<Rightarrow> world" where
  "print m w = emit (Print m) w"

text \<open>
  \<open>os.system\<close>: runs the command through the shell and returns its status (non-zero
  also when the shell cannot find the program). It never raises.
\<close>

definition os_system :: "env \<Rightarrow> cmd \<Rightarrow> world \<Rightarrow> nat \<times> world" where
  "os_system E c w =
     (let p = run E c (fsys w)
      in (case status p of None \<Rightarrow> 127 | Some n \<Rightarrow> n,
          \<lparr>fsys = fs_after p, trace = trace w @ [Exec c]\<rparr>))"

text \<open>
  \<open>subprocess.run(..., check=True)\<close>: with \<open>shell=True\<close> a program that cannot be
  started is a non-zero status of the shell; with an argument list it is an \<open>OSError\<close>.
\<close>

definition subprocess_run_shell :: "env \<Rightarrow> cmd \<Rightarrow> world \<Rightarrow> (exn + unit) \<times> world" where
  "subprocess_run_shell E c w =
     (let p = run E c (fsys w); w' = \<lparr>fsys = fs_after p, trace = trace w @ [Exec c]\<rparr>
      in if status p = Some 0 then (Inr (), w') else (Inl CalledProcessError, w'))"

definition subprocess_run :: "env \<Rightarrow> cmd \<Rightarrow> world \<Rightarrow> (exn + unit) \<times> world" where
  "subprocess_run E c w =
     (let p = run E c (fsys w); w' = \<lparr>fsys = fs_after p, trace = trace w @ [Exec c]\<rparr>
      in case status p of
           None \<Rightarrow> (Inl OSError, w')
         | Some n \<Rightarrow> if n = 0 then (Inr (), w') else (Inl CalledProcessError, w'))"

text \<open>Reading a text file whole: \<open>None\<close> when the path is not a regular file.\<close>

definition open_read :: "filesystem \<Rightarrow> path \<Rightarrow> ustring option" where
  "open_read fs p = (case map_of fs p of Some (File c) \<Rightarrow> Some c | _ \<Rightarrow> None)"

text \<open>\<open>open(p, "w")\<close> and \<open>write\<close>: the file holds the text written and nothing else.\<close>

definition write_file :: "path \<Rightarrow> ustring \<Rightarrow> world \<Rightarrow> world" where
  "write_file p c w = \<lparr>fsys = AList.update p (File c) (fsys w), trace = trace w @ [Wrote p]\<rparr>"

text \<open>
  \<open>os.makedirs(p, exist_ok=True)\<close>: the directory and the directories above it that are
  missing; an \<open>OSError\<close> when one of them is a regular file.
\<close>

fun ancestors :: "path \<Rightarrow> path \<Rightarrow> path list" where
  "ancestors acc [] = []"
| "ancestors acc (c # cs) =
     (if c = CHR ''/'' \<and> acc \<noteq> [] then [acc] else []) @ ancestors (acc @ [c]) cs"

definition mkdir_missing :: "path \<Rightarrow> filesystem \<Rightarrow> filesystem" where
  "mkdir_missing d fs = (if path_exists fs d then fs else AList.update d Dir fs)"

definition makedirs :: "path \<Rightarrow> world \<Rightarrow> (exn + unit) \<times> world" where
  "makedirs p w =
     (let ds = ancestors [] p @ [p]
      in if list_ex (\<lambda>d. path_exists (fsys w) d \<and> \<not> isdir (fsys w) d) ds then (Inl OSError, w)
         else (Inr (), \<lparr>fsys = fold mkdir_missing ds (fsys w), trace = trace w @ [MadeDirs p]\<rparr>))"

text \<open>
  \<open>shutil.move\<close>: into the destination when that is a directory (an error when the name
  is taken there), else onto the destination. The node alone is moved.
\<close>

definition shutil_move :: "path \<Rightarrow> path \<Rightarrow> world \<Rightarrow> (exn + path) \<times> world" where
  "shutil_move src dst w =
     (case map_of (fsys w) src of
        None \<Rightarrow> (Inl OSError, w)
      | Some n \<Rightarrow>
          let real_dst = (if isdir (fsys w) dst then path_join dst (basename src) else dst)
          in if isdir (fsys w) dst \<and> path_exists (fsys w) real_dst then (Inl ShutilError, w)
             else (Inr real_dst,
                   \<lparr>fsys = AList.update real_dst n (AList.delete src (fsys w)),
                    trace = trace w @ [Moved src real_dst]\<rparr>))"

text \<open>
  \<open>shutil.copy2\<close> of a regular file and \<open>shutil.copytree\<close> of a directory with all
  that is under it, to a destination that does not exist yet.
\<close>

definition copy2 :: "path \<Rightarrow> path \<Rightarrow> world \<Rightarrow> (exn + unit) \<times> world" where
  "copy2 src dst w =
     (case map_of (fsys w) src of
        Some (File c) \<Rightarrow>
          (Inr (), \<lparr>fsys = AList.update dst (File c) (fsys w), trace = trace w @ [Copied src dst]\<rparr>)
      | _ \<Rightarrow> (Inl OSError, w))"

definition copytree :: "path \<Rightarrow> path \<Rightarrow> world \<Rightarrow> (exn + unit) \<times> world" where
  "copytree src dst w =
     (if \<not> isdir (fsys w) src \<or> path_exists (fsys w) dst then (Inl OSError, w)
      else
        let below = [(dst @ drop (length src) p, n).
                       (p, n) \<leftarrow> fsys w, take (length src + 1) p = src @ ''/'']
        in (Inr (),
            \<lparr>fsys = fold (\<lambda>(p, n). AList.update p n) ((dst, Dir) # below) (fsys w),
             trace = trace w @ [Copied src dst]\<rparr>))"

section \<open>Module constants and the config loader\<close>

definition resource_path :: "env \<Rightarrow> path \<Rightarrow> path" where
  "resource_path E relative_path = path_join (base_path E) relative_path"

definition ffmpeg_path :: string where
  "ffmpeg_path = ''ffmpeg''"

definition CONFIG_FILE :: path where
  "CONFIG_FILE = ''config.json''"

definition DEFAULT_CONFIG :: json where
  "DEFAULT_CONFIG = JObj
     [(''min_speech_duration_ms'', JNum 500),
      (''min_silence_duration_ms'', JNum 700),
      (''max_speech_duration_s'', JNum 18),
      (''speech_pad_ms'', JNum 10),
      (''threshold'', JNum (6 / 10))]"

definition WHISPER_CLI :: "env \<Rightarrow> path" where
  "WHISPER_CLI E = resource_path E ''whisper.cpp/build/bin/whisper-cli''"

definition WHISPER_MODEL :: "env \<Rightarrow> path" where
  "WHISPER_MODEL E = resource_path E ''whisper.cpp/models/ggml-large-v3-turbo.bin''"

text \<open>
  The body of the \<open>try\<close> of \<open>load_config\<close>: opening the file and \<open>json.load\<close>.
  Either can raise; \<open>json.load\<close> is the library's and is taken from the environment.
\<close>

definition read_config :: "env \<Rightarrow> filesystem \<Rightarrow> path \<Rightarrow> exn + json" where
  "read_config E fs config_path =
     (case open_read fs config_path of
        None \<Rightarrow> Inl OSError
      | Some c \<Rightarrow> (case json_load E c of None \<Rightarrow> Inl ValueError | Some j \<Rightarrow> Inr j))"

text \<open>\<open>load_config\<close> returns the value it leaves in the global \<open>vad_config\<close>.\<close>

definition load_config :: "env \<Rightarrow> world \<Rightarrow> json \<times> world" where
  "load_config E w =
     (let config_path = resource_path E CONFIG_FILE;
          (vad_config, w1) =
            (if path_exists (fsys w) config_path
             then (case read_config E (fsys w) config_path of
                     Inr j \<Rightarrow> (j, w)
                   | Inl e \<Rightarrow> (DEFAULT_CONFIG, print (ConfigLoadError e) w))
             else (DEFAULT_CONFIG, w))
      in (vad_config, print (CurrentVadConfig vad_config) w1))"

text \<open>\<open>vad_config.get(key, default)\<close>: only a dict has \<open>get\<close>.\<close>

definition dict_get :: "json \<Rightarrow> string \<Rightarrow> json \<Rightarrow> exn + json" where
  "dict_get d k default_value =
     (case d of
        JObj kvs \<Rightarrow> Inr (case map_of kvs k of Some v \<Rightarrow> v | None \<Rightarrow> default_value)
      | _ \<Rightarrow> Inl AttributeError)"

section \<open>The dependency installer\<close>

definition check_and_install_system_dependencies :: "env \<Rightarrow> world \<Rightarrow> (abort + unit) \<times> world" where
  "check_and_install_system_dependencies E w =
     (if platform_system E = ''Linux''
      then
        let w1 = print (Progress InstallingPackages 0) w;
            sudo = (geteuid E \<noteq> 0)
        in case subprocess_run_shell E (AptGetUpdate sudo) w1 of
             (Inl e, w2) \<Rightarrow> (Inl (Uncaught e), w2)
           | (Inr _, w2) \<Rightarrow>
               (case subprocess_run_shell E (AptGetInstall sudo) w2 of
                  (Inl e, w3) \<Rightarrow> (Inl (Uncaught e), w3)
                | (Inr _, w3) \<Rightarrow> (Inr (), w3))
      else (Inl (SystemExit 1), print UnsupportedOS w))"

definition check_whisper_cli :: "env \<Rightarrow> filesystem \<Rightarrow> bool" where
  "check_whisper_cli E fs = path_exists fs (WHISPER_CLI E)"

text \<open>
  One of the two copies of \<open>copy_prebundled_files\<close>: a directory with \<open>copytree\<close>, a
  file with \<open>copy2\<close>, nothing when the destination is there. The four messages are those
  of the four branches.
\<close>

definition copy_prebundled ::
  "path \<Rightarrow> path \<Rightarrow> progress \<Rightarrow> progress \<Rightarrow> progress \<Rightarrow> progress \<Rightarrow> world \<Rightarrow> (abort + unit) \<times> world" where
  "copy_prebundled src dest dir_copied dir_present file_copied file_present w =
     (if isdir (fsys w) src
      then
        (if \<not> path_exists (fsys w) dest
         then (case copytree src dest w of
                 (Inl e, w1) \<Rightarrow> (Inl (Uncaught e), w1)
               | (Inr _, w1) \<Rightarrow> (Inr (), print (Progress dir_copied 30) w1))
         else (Inr (), print (Progress dir_present 30) w))
      else
        (if \<not> path_exists (fsys w) dest
         then (case copy2 src dest w of
                 (Inl e, w1) \<Rightarrow> (Inl (Uncaught e), w1)
               | (Inr _, w1) \<Rightarrow> (Inr (), print (Progress file_copied 30) w1))
         else (Inr (), print (Progress file_present 30) w)))"

definition copy_prebundled_files :: "env \<Rightarrow> world \<Rightarrow> (abort + unit) \<times> world" where
  "copy_prebundled_files E w =
     (let models_dir = resource_path E ''whisper.cpp/models''
      in case makedirs models_dir w of
           (Inl e, w1) \<Rightarrow> (Inl (Uncaught e), w1)
         | (Inr _, w1) \<Rightarrow>
             let encoder_src = resource_path E ''resources/ggml-large-v3-turbo-encoder.mlmodelc'';
                 model_src = resource_path E ''resources/ggml-large-v3-turbo.bin'';
                 encoder_dest = path_join models_dir ''ggml-large-v3-turbo-encoder.mlmodelc'';
                 model_dest = path_join models_dir ''ggml-large-v3-turbo.bin''
             in case copy_prebundled encoder_src encoder_dest
                       EncoderDirCopied EncoderDirPresent EncoderFileCopied EncoderFilePresent w1 of
                  (Inl a, w2) \<Rightarrow> (Inl a, w2)
                | (Inr _, w2) \<Rightarrow>
                    copy_prebundled model_src model_dest
                      ModelDirCopied ModelDirPresent ModelFileCopied ModelFilePresent w2)"

text \<open>
  Only a \<open>CalledProcessError\<close> of git falls back to the bundled files; the bundled files
  are then copied a second time, as for every other path.
\<close>

definition download_and_build_whisper :: "env \<Rightarrow> world \<Rightarrow> (abort + unit) \<times> world" where
  "download_and_build_whisper E w =
     (let target_dir = resource_path E ''whisper.cpp'';
          cloned =
            (if \<not> path_exists (fsys w) target_dir
             then
               (case subprocess_run E GitClone (print (Progress Cloning 10) w) of
                  (Inr _, w1) \<Rightarrow> (Inr (), w1)
                | (Inl e, w1) \<Rightarrow>
                    if e = CalledProcessError
                    then copy_prebundled_files E
                           (print (Progress UsingPrebundled 10) (print (Progress CloneFailed 10) w1))
                    else (Inl (Uncaught e), w1))
             else (Inr (), print (Progress RepoPresent 10) w))
      in case cloned of
           (Inl a, w2) \<Rightarrow> (Inl a, w2)
         | (Inr _, w2) \<Rightarrow>
             (case copy_prebundled_files E w2 of
                (Inl a, w3) \<Rightarrow> (Inl a, w3)
              | (Inr _, w3) \<Rightarrow>
                  (case subprocess_run E (CMakeConfigure target_dir)
                          (print (Progress CMakeConfiguring 40) w3) of
                     (Inl e, w4) \<Rightarrow> (Inl (Uncaught e), w4)
                   | (Inr _, w4) \<Rightarrow>
                       (case subprocess_run E
                               (CMakeBuild target_dir (platform_system E = ''Windows''))
                               (print (Progress ProjectBuilding 50) w4) of
                          (Inl e, w5) \<Rightarrow> (Inl (Uncaught e), w5)
                        | (Inr _, w5) \<Rightarrow> (Inr (), print (Progress BuildDone 70) w5)))))"

text \<open>
  \<open>except Exception\<close> reports and re-raises an exception; a \<open>sys.exit\<close> is not an
  \<open>Exception\<close> and passes through unreported.
\<close>

definition installation_process :: "env \<Rightarrow> world \<Rightarrow> (abort + bool) \<times> world" where
  "installation_process E w =
     (let w1 = print (Progress CheckingSystem 0) w;
          w2 = print (Progress (OsArch (platform_system E) (platform_machine E)) 5) w1;
          body =
            (case check_and_install_system_dependencies E w2 of
               (Inl a, w3) \<Rightarrow> (Inl a, w3)
             | (Inr _, w3) \<Rightarrow>
                 if \<not> check_whisper_cli E (fsys w3)
                 then (case download_and_build_whisper E (print (Progress WhisperMissing 5) w3) of
                         (Inl a, w4) \<Rightarrow> (Inl a, w4)
                       | (Inr _, w4) \<Rightarrow> (Inr True, print (Progress InstallDone 100) w4))
                 else (Inr True, print (Progress InstallDone 100) (print (Progress WhisperPresent 70) w3)))
      in case body of
           (Inl (Uncaught e), w5) \<Rightarrow> (Inl (Uncaught e), print (Progress (ErrorOccurred e) 100) w5)
         | r \<Rightarrow> r)"

section \<open>The audio converter\<close>

definition check_ffmpeg :: "env \<Rightarrow> world \<Rightarrow> (abort + unit) \<times> world" where
  "check_ffmpeg E w =
     (case os_system E FfmpegVersion w of
        (st, w1) \<Rightarrow>
          if st \<noteq> 0 then (Inl (SystemExit 1), print FfmpegNotInstalled w1) else (Inr (), w1))"

definition convert_to_mp3 :: "env \<Rightarrow> path \<Rightarrow> world \<Rightarrow> (abort + path) \<times> world" where
  "convert_to_mp3 E file_path w =
     (if endswith (lower file_path) ''.mp3''
      then (Inr file_path, print (AlreadyMp3 file_path) w)
      else
        let output_mp3 = hd (rsplit1 CHR ''.'' file_path) @ ''.mp3'';
            w1 = print (Converting file_path output_mp3) w;
            w2 = snd (os_system E (FfmpegConvert file_path output_mp3) w1)
        in if \<not> path_exists (fsys w2) output_mp3
           then (Inl (SystemExit 1), print (ConvertFailed output_mp3) w2)
           else (Inr output_mp3, w2))"

section \<open>The segmenter\<close>

text \<open>
  Times in seconds are Python floats in the source and exact reals here. The loop over
  \<open>enumerate(speech_timestamps)\<close> skips an interval with a message, or cuts it with
  one ffmpeg command.
\<close>

definition enumerate :: "'a list \<Rightarrow> (nat \<times> 'a) list" where
  "enumerate xs = zip [0..<length xs] xs"

text \<open>The three values the loop computes for an interval (the detector samples at 16 kHz).\<close>

definition start_time :: "segment \<Rightarrow> real" where
  "start_time segment = max 0 (real_of_int (seg_start segment) / 16000)"

definition end_time :: "segment \<Rightarrow> real" where
  "end_time segment = real_of_int (seg_end segment) / 16000"

definition duration :: "segment \<Rightarrow> real" where
  "duration segment = end_time segment - start_time segment"

fun split_segments ::
  "env \<Rightarrow> path \<Rightarrow> path \<Rightarrow> nat \<Rightarrow> (nat \<times> segment) list \<Rightarrow> world \<Rightarrow> world" where
  "split_segments E file_path mp3_folder total_segments [] w = w"
| "split_segments E file_path mp3_folder total_segments ((idx, segment) # rest) w =
     (if start_time segment \<ge> end_time segment \<or> duration segment < 0.5
      then split_segments E file_path mp3_folder total_segments rest
             (print (SkipSegment (idx + 1)) w)
      else
        let output_mp3 = path_join mp3_folder (str_nat (idx + 1) @ ''.mp3'');
            command = FfmpegCut file_path (start_time segment) (duration segment) output_mp3;
            w1 = print (CuttingSegment (idx + 1) total_segments) w;
            w2 = snd (os_system E command w1)
        in split_segments E file_path mp3_folder total_segments rest w2)"

text \<open>The five keyword arguments of the detector, read from the configuration in order.\<close>

definition vad_arguments :: "json \<Rightarrow> exn + json list" where
  "vad_arguments vad_config =
     (case dict_get vad_config ''min_speech_duration_ms'' (JNum 500) of
        Inl e \<Rightarrow> Inl e
      | Inr a1 \<Rightarrow>
     (case dict_get vad_config ''min_silence_duration_ms'' (JNum 700) of
        Inl e \<Rightarrow> Inl e
      | Inr a2 \<Rightarrow>
     (case dict_get vad_config ''max_speech_duration_s'' (JNum 18) of
        Inl e \<Rightarrow> Inl e
      | Inr a3 \<Rightarrow>
     (case dict_get vad_config ''speech_pad_ms'' (JNum 10) of
        Inl e \<Rightarrow> Inl e
      | Inr a4 \<Rightarrow>
     (case dict_get vad_config ''threshold'' (JNum (6 / 10)) of
        Inl e \<Rightarrow> Inl e
      | Inr a5 \<Rightarrow> Inr [a1, a2, a3, a4, a5])))))"

definition split_audio ::
  "env \<Rightarrow> json \<Rightarrow> path \<Rightarrow> world \<Rightarrow> (abort + path \<times> path \<times> path) \<times> world" where
  "split_audio E vad_config file_path0 w =
     (case check_ffmpeg E w of
        (Inl a, w1) \<Rightarrow> (Inl a, w1)
      | (Inr _, w1) \<Rightarrow>
     let base_name = fst (splitext (basename file_path0));
         output_folder = path_join ''split_audio'' base_name;
         mp3_folder = path_join output_folder ''MP3'';
         text_folder = path_join output_folder ''TEXT''
     in
     (case makedirs mp3_folder w1 of
        (Inl e, w2) \<Rightarrow> (Inl (Uncaught e), w2)
      | (Inr _, w2) \<Rightarrow>
     (case makedirs text_folder w2 of
        (Inl e, w3) \<Rightarrow> (Inl (Uncaught e), w3)
      | (Inr _, w3) \<Rightarrow>
     (case convert_to_mp3 E file_path0 w3 of
        (Inl a, w4) \<Rightarrow> (Inl a, w4)
      | (Inr file_path, w4) \<Rightarrow>
     let w5 = emit HubLoad (print LoadingVadModel w4)
     in
     (case hub_load E (fsys w5) of
        None \<Rightarrow> (Inl (Uncaught RuntimeError), w5)
      | Some fs6 \<Rightarrow>
     let w6 = emit (ReadAudio file_path) (print (LoadingAudio file_path) (w5\<lparr>fsys := fs6\<rparr>))
     in
     (case read_audio E (fsys w6) file_path of
        None \<Rightarrow> (Inl (Uncaught RuntimeError), w6)
      | Some wav \<Rightarrow>
     let w7 = print DetectingSpeech w6
     in
     (case vad_arguments vad_config of
        Inl e \<Rightarrow> (Inl (Uncaught e), w7)
      | Inr arguments \<Rightarrow>
     let w8 = emit (GetSpeechTimestamps arguments) w7
     in
     (case get_speech_timestamps E wav arguments of
        None \<Rightarrow> (Inl (Uncaught RuntimeError), w8)
      | Some speech_timestamps \<Rightarrow>
     let total_segments = length speech_timestamps;
         w9 = print (DetectedCount total_segments) w8;
         w10 = split_segments E file_path mp3_folder total_segments
                 (enumerate speech_timestamps) w9
     in (Inr (output_folder, mp3_folder, text_folder), print SplitDone w10)))))))))"

section \<open>The transcriber\<close>

text \<open>
  \<open>readlines\<close> of a file opened in text mode: a line ends at LF, CR or CR LF, and
  each ending is read as one LF. The flag says that the last character was a CR.
\<close>

primrec readlines_from :: "bool \<Rightarrow> ustring \<Rightarrow> ustring \<Rightarrow> ustring list" where
  "readlines_from cr line [] = (if line = [] then [] else [line])"
| "readlines_from cr line (c # cs) =
     (if c = 10 then
        (if cr then readlines_from False line cs
         else (line @ [10]) # readlines_from False [] cs)
      else if c = 13 then (line @ [10]) # readlines_from True [] cs
      else readlines_from False (line @ [c]) cs)"

definition readlines :: "ustring \<Rightarrow> ustring list" where
  "readlines content = readlines_from False [] content"

definition remove_newlines_from_text :: "path \<Rightarrow> world \<Rightarrow> (abort + unit) \<times> world" where
  "remove_newlines_from_text text_file w =
     (case open_read (fsys w) text_file of
        None \<Rightarrow> (Inl (Uncaught OSError), w)
      | Some content \<Rightarrow>
          let lines = readlines content;
              cleaned_text = join_space (map strip lines);
              w1 = write_file text_file cleaned_text w
          in (Inr (), print (NewlinesRemoved text_file) w1))"

text \<open>The loop over \<open>audio_files\<close> after the transcription binary has exited.\<close>

fun collect_transcripts :: "path \<Rightarrow> path list \<Rightarrow> world \<Rightarrow> (abort + unit) \<times> world" where
  "collect_transcripts text_folder [] w = (Inr (), w)"
| "collect_transcripts text_folder (file # rest) w =
     (let txt_file = file @ ''.txt''
      in if path_exists (fsys w) txt_file
         then
           (case remove_newlines_from_text txt_file w of
              (Inl a, w1) \<Rightarrow> (Inl a, w1)
            | (Inr _, w1) \<Rightarrow>
                let new_location = path_join text_folder (basename txt_file)
                in (case shutil_move txt_file new_location w1 of
                      (Inl e, w2) \<Rightarrow> (Inl (Uncaught e), w2)
                    | (Inr _, w2) \<Rightarrow>
                        collect_transcripts text_folder rest
                          (print (Transcribed (basename file) new_location) w2)))
         else collect_transcripts text_folder rest (print (TxtMissing txt_file) w))"

text \<open>The sorted list of the paths of the \<open>.mp3\<close> files of the folder.\<close>

definition list_audio_files :: "filesystem \<Rightarrow> path \<Rightarrow> path list" where
  "list_audio_files fs mp3_folder =
     sort [path_join mp3_folder f. f \<leftarrow> listdir fs mp3_folder, endswith f ''.mp3'']"

definition transcribe_audio :: "env \<Rightarrow> path \<Rightarrow> path \<Rightarrow> world \<Rightarrow> (abort + unit) \<times> world" where
  "transcribe_audio E mp3_folder text_folder w =
     (if \<not> path_exists (fsys w) mp3_folder
      then (Inl (SystemExit 1), print (FolderMissing mp3_folder) w)
      else if \<not> isdir (fsys w) mp3_folder then (Inl (Uncaught OSError), w)
      else
        let audio_files = list_audio_files (fsys w) mp3_folder;
            total_files = length audio_files;
            w1 = print WhisperStarting (print (WhisperCount total_files) w);
            whisper_command = WhisperCli (WHISPER_CLI E) (WHISPER_MODEL E) audio_files;
            p = run E whisper_command (fsys w1);
            w2 = emit (Exec whisper_command) w1
        in if status p = None then (Inl (Uncaught OSError), w2)
           else
             let w3 = fold (\<lambda>line. print (WhisperLine (strip line))) (stdout_lines p)
                        (w2\<lparr>fsys := fs_after p\<rparr>)
             in case collect_transcripts text_folder audio_files w3 of
                  (Inl a, w4) \<Rightarrow> (Inl a, w4)
                | (Inr _, w4) \<Rightarrow> (Inr (), print (TranscribeDone text_folder) w4))"

section \<open>The entry point\<close>

text \<open>
  \<open>args.filepath\<close> is \<open>None\<close> without the positional argument; \<open>if args.filepath\<close>
  is false for \<open>None\<close> and for the empty string.
\<close>

definition truthy :: "string option \<Rightarrow> bool" where
  "truthy a = (case a of None \<Rightarrow> False | Some s \<Rightarrow> s \<noteq> [])"

definition marker :: path where
  "marker = ''installed.flag''"

text \<open>The three steps every start runs once the file is chosen.\<close>

definition pipeline :: "env \<Rightarrow> json \<Rightarrow> path \<Rightarrow> world \<Rightarrow> (abort + unit) \<times> world" where
  "pipeline E vad_config file_path0 w =
     (case convert_to_mp3 E file_path0 (print ProcessingStart w) of
        (Inl a, w1) \<Rightarrow> (Inl a, w1)
      | (Inr file_path, w1) \<Rightarrow>
          (case split_audio E vad_config file_path w1 of
             (Inl a, w2) \<Rightarrow> (Inl a, w2)
           | (Inr (output_folder, mp3_folder, text_folder), w2) \<Rightarrow>
               (case transcribe_audio E mp3_folder text_folder w2 of
                  (Inl a, w3) \<Rightarrow> (Inl a, w3)
                | (Inr _, w3) \<Rightarrow> (Inr (), print ProcessingDone w3))))"

text \<open>The choice of the file: the argument, the first run, or the prompt.\<close>

definition choose_file :: "env \<Rightarrow> string option \<Rightarrow> world \<Rightarrow> (abort + path) \<times> world" where
  "choose_file E args_filepath w =
     (if truthy args_filepath then (Inr (the args_filepath), w)
      else if \<not> path_exists (fsys w) marker
      then
        (case installation_process E (print FirstRun w) of
           (Inl a, w1) \<Rightarrow> (Inl a, w1)
         | (Inr _, w1) \<Rightarrow>
             let w2 = write_file marker (ascii ''installed'') w1;
                 file_path = path_join (getcwd E) ''Tvoice.mp3''
             in if \<not> path_exists (fsys w2) file_path
                then (Inl (SystemExit 1), print DefaultFileMissing w2)
                else (Inr file_path, w2))
      else
        (case stdin_line E of
           None \<Rightarrow> (Inl (Uncaught EOFError), print Prompt w)
         | Some l \<Rightarrow>
             let file_path = strip_path l;
                 w1 = print Prompt w
             in if \<not> path_exists (fsys w1) file_path
                then (Inl (SystemExit 1), print InputFileMissing w1)
                else (Inr file_path, w1)))"

definition main :: "env \<Rightarrow> json \<Rightarrow> string option \<Rightarrow> world \<Rightarrow> (abort + unit) \<times> world" where
  "main E vad_config args_filepath w =
     (case choose_file E args_filepath w of
        (Inl a, w1) \<Rightarrow> (Inl a, w1)
      | (Inr file_path, w1) \<Rightarrow> pipeline E vad_config file_path w1)"

text \<open>The script: \<open>load_config\<close> runs when the module is loaded, then \<open>main\<close>.\<close>

definition script :: "env \<Rightarrow> string option \<Rightarrow> world \<Rightarrow> (abort + unit) \<times> world" where
  "script E args_filepath w =
     (case load_config E w of (vad_config, w1) \<Rightarrow> main E vad_config args_filepath w1)"

section \<open>Reading the trace\<close>



text \<open>
  What one interval of the enumeration adds to the trace according to the
  specification: the skip message and nothing else, or the progress message and one cut
  command whose output is named by \<open>idx + 1\<close>.
\<close>

definition interval_events :: "path \<Rightarrow> path \<Rightarrow> nat \<Rightarrow> nat \<times> segment \<Rightarrow> event list" where
  "interval_events file_path mp3_folder total_segments x =
     (case x of (idx, segment) \<Rightarrow>
        if start_time segment \<ge> end_time segment \<or> duration segment < 0.5
        then [Print (SkipSegment (idx + 1))]
        else [Print (CuttingSegment (idx + 1) total_segments),
              Exec (FfmpegCut file_path (start_time segment) (duration segment)
                      (path_join mp3_folder (str_nat (idx + 1) @ ''.mp3'')))])"


text \<open>A line as \<open>readlines\<close> returns it: no line break but, at most, a final LF.\<close>

definition terminated :: "ustring \<Rightarrow> bool" where
  "terminated l = (\<exists>body. (l = body \<or> l = body @ [10]) \<and> 10 \<notin> set body \<and> 13 \<notin> set body)"

text \<open>
  The transcriber in the words of the specification: the cleaned text of a transcript,
  where a transcript is moved to, and what one segment file adds to the trace (cleaning
  and moving when its text output exists, the failure message when it is missing).
\<close>

definition cleaned :: "ustring \<Rightarrow> ustring" where
  "cleaned content = join_space (map strip (readlines content))"




text \<open>
  The events that only the three steps after the choice of the file produce (conversion,
  segmentation, transcription): their messages, ffmpeg and whisper-cli, the calls of the
  voice-activity library and the moves. Creating directories and writing a file are
  shared with the installation and the entry point.
\<close>

definition step_message :: "msg \<Rightarrow> bool" where
  "step_message m =
     (case m of
        Progress p v \<Rightarrow> False
      | UnsupportedOS \<Rightarrow> False
      | ConfigLoadError e \<Rightarrow> False
      | CurrentVadConfig c \<Rightarrow> False
      | FirstRun \<Rightarrow> False
      | DefaultFileMissing \<Rightarrow> False
      | Prompt \<Rightarrow> False
      | InputFileMissing \<Rightarrow> False
      | _ \<Rightarrow> True)"

definition step_command :: "cmd \<Rightarrow> bool" where
  "step_command c =
     (case c of
        AptGetUpdate s \<Rightarrow> False
      | AptGetInstall s \<Rightarrow> False
      | GitClone \<Rightarrow> False
      | CMakeConfigure d \<Rightarrow> False
      | CMakeBuild d r \<Rightarrow> False
      | _ \<Rightarrow> True)"

definition step_event :: "event \<Rightarrow> bool" where
  "step_event e =
     (case e of
        Print m \<Rightarrow> step_message m
      | Exec c \<Rightarrow> step_command c
      | HubLoad \<Rightarrow> True
      | ReadAudio p \<Rightarrow> True
      | GetSpeechTimestamps a \<Rightarrow> True
      | Moved a b \<Rightarrow> True
      | _ \<Rightarrow> False)"

text \<open>
  A world reached from another with no event of a step, and a result reached that way
  which, when it aborts, aborts with exit status 1.
\<close>

definition no_step :: "world \<Rightarrow> world \<Rightarrow> bool" where
  "no_step w w' = (\<exists>es. trace w' = trace w @ es \<and> list_all (\<lambda>e. \<not> step_event e) es)"

definition installs :: "world \<Rightarrow> (abort + 'a) \<times> world \<Rightarrow> bool" where
  "installs w rw =
     (no_step w (snd rw) \<and> (case fst rw of Inl a \<Rightarrow> exit_status a = 1 | Inr x \<Rightarrow> True))"

text \<open>A result whose trace continues the trace of the world it started from.\<close>

definition grows :: "world \<Rightarrow> 'a \<times> world \<Rightarrow> bool" where
  "grows w rw = (\<exists>es. trace (snd rw) = trace w @ es)"

section \<open>Concrete environments and inputs\<close>

text \<open>
  An environment in which every external command exits with status 0 and changes
  nothing, the configuration does not parse and the detector finds no speech.
\<close>

definition quiet_env :: env where
  "quiet_env =
     \<lparr>platform_system = ''Linux'', platform_machine = ''x86_64'', geteuid = 0,
      base_path = ''/app'', getcwd = ''/app'', stdin_line = None,
      run = (\<lambda>c fs. \<lparr>status = Some 0, stdout_lines = [], fs_after = fs\<rparr>),
      json_load = (\<lambda>_. None), hub_load = (\<lambda>fs. Some fs), read_audio = (\<lambda>_ _. Some []),
      get_speech_timestamps = (\<lambda>_ _. Some [])\<rparr>"

text \<open>
  An environment in which ffmpeg works: converting and cutting create the output file
  (empty, its content does not matter here); every other command changes nothing.
\<close>

definition ffmpeg_run :: "cmd \<Rightarrow> filesystem \<Rightarrow> proc" where
  "ffmpeg_run c fs =
     (case c of
        FfmpegConvert i out \<Rightarrow>
          \<lparr>status = Some 0, stdout_lines = [], fs_after = AList.update out (File []) fs\<rparr>
      | FfmpegCut i s d out \<Rightarrow>
          \<lparr>status = Some 0, stdout_lines = [], fs_after = AList.update out (File []) fs\<rparr>
      | _ \<Rightarrow> \<lparr>status = Some 0, stdout_lines = [], fs_after = fs\<rparr>)"

definition ffmpeg_env :: env where
  "ffmpeg_env = quiet_env\<lparr>run := ffmpeg_run\<rparr>"

definition empty_world :: world where
  "empty_world = \<lparr>fsys = [], trace = []\<rparr>"


text \<open>One transcript of two lines, the first ended by CR LF and the second by LF.\<close>

definition transcript_world :: world where
  "transcript_world =
     \<lparr>fsys = [(''out/1.mp3.txt'', File [32, 104, 105, 13, 10, 111, 107, 32, 10])], trace = []\<rparr>"

text \<open>A configuration file that does not parse (the environment's parser rejects it).\<close>

definition broken_config_world :: world where
  "broken_config_world = \<lparr>fsys = [(''/app/config.json'', File [123])], trace = []\<rparr>"





definition default_file_world :: world where
  "default_file_world =
     \<lparr>fsys = [(''/app/whisper.cpp/build/bin/whisper-cli'', File []), (''/app/Tvoice.mp3'', File [])],
      trace = []\<rparr>"

text \<open>A start with a file argument: the audio file is there, nothing is installed.\<close>

definition audio_world :: world where
  "audio_world = \<lparr>fsys = [(''talk.mp3'', File [])], trace = []\<rparr>"

section \<open>Properties of the audio converter\<close>

lemma of_char_lower_char:
  "(of_char (lower_char c) :: nat) =
     (if 65 \<le> (of_char c :: nat) \<and> (of_char c :: nat) \<le> 90 then of_char c + 32 else of_char c)"
proof -
  have "(of_char c :: nat) < 256" by simp
  then show ?thesis
    by (simp add: lower_char_def less_eq_char_def)
qed

lemma char_eq_nat: "(c = d) = ((of_char c :: nat) = of_char d)"
  by simp

lemma lower_char_eq_iff:
  "lower_char c = CHR ''m'' \<longleftrightarrow> c = CHR ''m'' \<or> c = CHR ''M''"
  "lower_char c = CHR ''p'' \<longleftrightarrow> c = CHR ''p'' \<or> c = CHR ''P''"
  "lower_char c = CHR ''3'' \<longleftrightarrow> c = CHR ''3''"
  "lower_char c = CHR ''.'' \<longleftrightarrow> c = CHR ''.''"
  unfolding char_eq_nat [of _ "CHR ''m''"] char_eq_nat [of _ "CHR ''M''"] char_eq_nat [of _ "CHR ''p''"] char_eq_nat [of _ "CHR ''P''"]
     char_eq_nat [of _ "CHR ''3''"] char_eq_nat [of _ "CHR ''.''"] of_char_lower_char
  by auto

lemma endswith_iff: "endswith s suffix \<longleftrightarrow> (\<exists>pre. s = pre @ suffix)"
proof
  assume "endswith s suffix"
  then have "s = take (length s - length suffix) s @ suffix"
    by (metis append_take_drop_id endswith_def)
  then show "\<exists>pre. s = pre @ suffix" ..
next
  assume "\<exists>pre. s = pre @ suffix"
  then show "endswith s suffix" by (auto simp: endswith_def)
qed

lemma lower_mp3_suffix:
  "map lower_char [a, b, c, d] = ''.mp3'' \<longleftrightarrow>
     a = CHR ''.'' \<and> (b = CHR ''m'' \<or> b = CHR ''M'') \<and> (c = CHR ''p'' \<or> c = CHR ''P'') \<and> d = CHR ''3''"
  by (simp add: lower_char_eq_iff)

lemma endswith_lower_mp3_iff:
  "endswith (lower p) ''.mp3'' \<longleftrightarrow>
     (\<exists>stem m q. p = stem @ [CHR ''.'', m, q, CHR ''3''] \<and>
        (m = CHR ''m'' \<or> m = CHR ''M'') \<and> (q = CHR ''p'' \<or> q = CHR ''P''))"
proof
  assume "endswith (lower p) ''.mp3''"
  then obtain pre where "map lower_char p = pre @ ''.mp3''"
    by (auto simp: endswith_iff lower_def)
  then obtain stem t where p: "p = stem @ t" and t: "map lower_char t = ''.mp3''"
    by (auto simp: map_eq_append_conv)
  from t have "length (map lower_char t) = length ''.mp3''" by simp
  then have "length t = 4" by simp
  then obtain a b c d where abcd: "t = [a, b, c, d]"
    by (auto simp: length_Suc_conv eval_nat_numeral)
  from t show "\<exists>stem m q. p = stem @ [CHR ''.'', m, q, CHR ''3''] \<and>
        (m = CHR ''m'' \<or> m = CHR ''M'') \<and> (q = CHR ''p'' \<or> q = CHR ''P'')"
    unfolding abcd lower_mp3_suffix using p abcd by blast
next
  assume "\<exists>stem m q. p = stem @ [CHR ''.'', m, q, CHR ''3''] \<and>
        (m = CHR ''m'' \<or> m = CHR ''M'') \<and> (q = CHR ''p'' \<or> q = CHR ''P'')"
  then obtain stem m q where p: "p = stem @ [CHR ''.'', m, q, CHR ''3'']"
    and mq: "(m = CHR ''m'' \<or> m = CHR ''M'')" "(q = CHR ''p'' \<or> q = CHR ''P'')"
    by blast
  have "map lower_char [CHR ''.'', m, q, CHR ''3''] = ''.mp3''"
    unfolding lower_mp3_suffix using mq by simp
  then have "lower p = lower stem @ ''.mp3''"
    by (simp add: p lower_def)
  then show "endswith (lower p) ''.mp3''"
    unfolding endswith_iff by blast
qed

lemma hd_rsplit1_dot:
  assumes "CHR ''.'' \<notin> set ext"
  shows "hd (rsplit1 CHR ''.'' (stem @ ''.'' @ ext)) = stem"
proof -
  have "dropWhile (\<lambda>c. c \<noteq> CHR ''.'') (rev ext @ CHR ''.'' # rev stem) = CHR ''.'' # rev stem"
    using assms by (subst dropWhile_append2) auto
  then show ?thesis by (simp add: rsplit1_def)
qed

lemma hd_rsplit1_no_dot: "CHR ''.'' \<notin> set p \<Longrightarrow> hd (rsplit1 CHR ''.'' p) = p"
  by (simp add: rsplit1_def)

lemma endswith_lower_output: "endswith (lower (stem @ ''.mp3'')) ''.mp3''"
  unfolding endswith_lower_mp3_iff by auto

lemma convert_to_mp3_output_is_mp3:
  assumes "convert_to_mp3 E file_path w = (Inr q, w')"
  shows "endswith (lower q) ''.mp3''"
proof (cases "endswith (lower file_path) ''.mp3''")
  case True
  with assms show ?thesis by (simp add: convert_to_mp3_def)
next
  case False
  with assms have "q = hd (rsplit1 CHR ''.'' file_path) @ ''.mp3''"
    by (auto simp: convert_to_mp3_def Let_def split: if_splits)
  then show ?thesis using endswith_lower_output by simp
qed

lemma split_at_last:
  assumes "xs @ a # ys = xs' @ a # ys'" "a \<notin> set ys" "a \<notin> set ys'"
  shows "xs = xs' \<and> ys = ys'"
proof -
  have "takeWhile (\<lambda>c. c \<noteq> a) (rev (xs @ a # ys)) = rev ys"
    using assms(2) by (auto simp: takeWhile_tail)
  moreover have "takeWhile (\<lambda>c. c \<noteq> a) (rev (xs' @ a # ys')) = rev ys'"
    using assms(3) by (auto simp: takeWhile_tail)
  ultimately have "ys = ys'" using assms(1) by (metis rev_rev_ident)
  with assms(1) show ?thesis by simp
qed

lemma endswith_lower_ext:
  assumes "CHR ''.'' \<notin> set ext"
  shows "endswith (lower (stem @ ''.'' @ ext)) ''.mp3'' \<longleftrightarrow> lower ext = ''mp3''"
proof
  assume "endswith (lower (stem @ ''.'' @ ext)) ''.mp3''"
  then obtain stem' m q where e: "stem @ ''.'' @ ext = stem' @ [CHR ''.'', m, q, CHR ''3'']"
    and mq: "(m = CHR ''m'' \<or> m = CHR ''M'')" "(q = CHR ''p'' \<or> q = CHR ''P'')"
    unfolding endswith_lower_mp3_iff by blast
  have "CHR ''.'' \<notin> set [m, q, CHR ''3'']" using mq by auto
  with e assms have "ext = [m, q, CHR ''3'']"
    using split_at_last [of stem "CHR ''.''" ext stem' "[m, q, CHR ''3'']"] by simp
  then show "lower ext = ''mp3''" using mq by (auto simp: lower_def lower_char_eq_iff)
next
  assume "lower ext = ''mp3''"
  then have "lower (stem @ ''.'' @ ext) = (lower stem) @ ''.mp3''"
    by (simp add: lower_def lower_char_eq_iff)
  then show "endswith (lower (stem @ ''.'' @ ext)) ''.mp3''"
    unfolding endswith_iff by blast
qed

lemma lower_MP3: "lower ''MP3'' = ''mp3''" "lower ''Mp3'' = ''mp3''" "lower ''wav'' = ''wav''"
  by code_simp+

text \<open>
  Claim C3. A path that already ends in \<open>.mp3\<close> (the test of the source, on the lowered
  path) comes back unchanged: the only effect is the message, no command is run and the
  filesystem is the same. And whenever the converter returns a path, converting that path
  again returns it unchanged, again with the message as the only effect.
\<close>

theorem convert_to_mp3_idempotent:
  "(endswith (lower file_path) ''.mp3'' \<longrightarrow>
      convert_to_mp3 E file_path w = (Inr file_path, w\<lparr>trace := trace w @ [Print (AlreadyMp3 file_path)]\<rparr>))
   \<and> (\<forall>q w'. convert_to_mp3 E file_path w = (Inr q, w') \<longrightarrow>
         convert_to_mp3 E q w' = (Inr q, w'\<lparr>trace := trace w' @ [Print (AlreadyMp3 q)]\<rparr>))"
proof (intro conjI impI allI)
  assume "endswith (lower file_path) ''.mp3''"
  then show "convert_to_mp3 E file_path w = (Inr file_path, w\<lparr>trace := trace w @ [Print (AlreadyMp3 file_path)]\<rparr>)"
    by (simp add: convert_to_mp3_def print_def emit_def)
next
  fix q w'
  assume "convert_to_mp3 E file_path w = (Inr q, w')"
  then have "endswith (lower q) ''.mp3''" by (rule convert_to_mp3_output_is_mp3)
  then show "convert_to_mp3 E q w' = (Inr q, w'\<lparr>trace := trace w' @ [Print (AlreadyMp3 q)]\<rparr>)"
    by (simp add: convert_to_mp3_def print_def emit_def)
qed

theorem convert_to_mp3_idempotent_witness:
  "endswith (lower ''talk.mp3'') ''.mp3''
   \<and> convert_to_mp3 ffmpeg_env ''talk.mp3'' empty_world =
       (Inr ''talk.mp3'', empty_world\<lparr>trace := [Print (AlreadyMp3 ''talk.mp3'')]\<rparr>)
   \<and> convert_to_mp3 ffmpeg_env ''talk.wav'' empty_world =
       (Inr ''talk.mp3'',
        \<lparr>fsys = [(''talk.mp3'', File [])],
         trace = [Print (Converting ''talk.wav'' ''talk.mp3''),
                  Exec (FfmpegConvert ''talk.wav'' ''talk.mp3'')]\<rparr>)
   \<and> convert_to_mp3 ffmpeg_env ''talk.mp3''
         \<lparr>fsys = [(''talk.mp3'', File [])],
          trace = [Print (Converting ''talk.wav'' ''talk.mp3''),
                   Exec (FfmpegConvert ''talk.wav'' ''talk.mp3'')]\<rparr> =
       (Inr ''talk.mp3'',
        \<lparr>fsys = [(''talk.mp3'', File [])],
         trace = [Print (Converting ''talk.wav'' ''talk.mp3''),
                  Exec (FfmpegConvert ''talk.wav'' ''talk.mp3''),
                  Print (AlreadyMp3 ''talk.mp3'')]\<rparr>)"
proof -
  have a: "endswith (lower ''talk.mp3'') ''.mp3''"
    by code_simp
  have n: "\<not> endswith (lower ''talk.wav'') ''.mp3''"
    by code_simp
  have r: "hd (rsplit1 CHR ''.'' ''talk.wav'') = ''talk''"
    using hd_rsplit1_dot [of "''wav''" "''talk''"] by simp
  have b: "convert_to_mp3 ffmpeg_env ''talk.wav'' empty_world =
       (Inr ''talk.mp3'',
        \<lparr>fsys = [(''talk.mp3'', File [])],
         trace = [Print (Converting ''talk.wav'' ''talk.mp3''),
                  Exec (FfmpegConvert ''talk.wav'' ''talk.mp3'')]\<rparr>)"
    unfolding convert_to_mp3_def Let_def using n r
    by (simp add: os_system_def ffmpeg_env_def ffmpeg_run_def quiet_env_def empty_world_def
          print_def emit_def path_exists_def)
  have c: "convert_to_mp3 ffmpeg_env ''talk.mp3'' empty_world =
       (Inr ''talk.mp3'', empty_world\<lparr>trace := [Print (AlreadyMp3 ''talk.mp3'')]\<rparr>)"
    using a convert_to_mp3_idempotent [of "''talk.mp3''" ffmpeg_env empty_world]
    by (simp add: empty_world_def)
  have d: "convert_to_mp3 ffmpeg_env ''talk.mp3''
         \<lparr>fsys = [(''talk.mp3'', File [])],
          trace = [Print (Converting ''talk.wav'' ''talk.mp3''),
                   Exec (FfmpegConvert ''talk.wav'' ''talk.mp3'')]\<rparr> =
       (Inr ''talk.mp3'',
        \<lparr>fsys = [(''talk.mp3'', File [])],
         trace = [Print (Converting ''talk.wav'' ''talk.mp3''),
                  Exec (FfmpegConvert ''talk.wav'' ''talk.mp3''),
                  Print (AlreadyMp3 ''talk.mp3'')]\<rparr>)"
    using convert_to_mp3_idempotent [of "''talk.wav''" ffmpeg_env empty_world,
        THEN conjunct2, THEN spec, THEN spec, THEN mp, OF b]
    by simp
  from a b c d show ?thesis by blast
qed

lemma lower_ext_mp3:
  "(lower ext = ''mp3'') =
     (\<exists>m q. ext = [m, q, CHR ''3''] \<and> (m = CHR ''m'' \<or> m = CHR ''M'') \<and>
            (q = CHR ''p'' \<or> q = CHR ''P''))"
proof
  assume l: "lower ext = ''mp3''"
  then have "length (map lower_char ext) = length ''mp3''" by (simp add: lower_def)
  then have "length ext = 3" by simp
  then obtain a b c where e: "ext = [a, b, c]"
    by (auto simp: length_Suc_conv eval_nat_numeral)
  from l show "\<exists>m q. ext = [m, q, CHR ''3''] \<and> (m = CHR ''m'' \<or> m = CHR ''M'') \<and>
            (q = CHR ''p'' \<or> q = CHR ''P'')"
    unfolding e by (simp add: lower_def lower_char_eq_iff)
next
  assume "\<exists>m q. ext = [m, q, CHR ''3''] \<and> (m = CHR ''m'' \<or> m = CHR ''M'') \<and>
            (q = CHR ''p'' \<or> q = CHR ''P'')"
  then show "lower ext = ''mp3''"
    by (auto simp: lower_def lower_char_eq_iff)
qed

text \<open>
  Claim C9. Let the path be \<open>stem.ext\<close>, with no dot in \<open>ext\<close> (so \<open>ext\<close> is what
  follows the last dot). If \<open>ext\<close> is \<open>mp3\<close> in any letter case, the converter returns
  the path unchanged, prints one message and runs no command. Otherwise it runs the
  encoder with the output \<open>stem.mp3\<close> (all that follows the last dot replaced by
  \<open>mp3\<close>) and returns that path when the file exists afterwards, exiting with status 1
  when it does not. The extension is \<open>mp3\<close> in some letter case exactly when it is
  one of m or M, one of p or P, and 3.
\<close>

theorem convert_to_mp3_extension:
  "(CHR ''.'' \<notin> set ext \<longrightarrow>
     (lower ext = ''mp3'' \<longrightarrow>
        convert_to_mp3 E (stem @ ''.'' @ ext) w =
          (Inr (stem @ ''.'' @ ext),
           w\<lparr>trace := trace w @ [Print (AlreadyMp3 (stem @ ''.'' @ ext))]\<rparr>))
     \<and> (lower ext \<noteq> ''mp3'' \<longrightarrow>
        convert_to_mp3 E (stem @ ''.'' @ ext) w =
          (let w2 = snd (os_system E (FfmpegConvert (stem @ ''.'' @ ext) (stem @ ''.mp3''))
                      (print (Converting (stem @ ''.'' @ ext) (stem @ ''.mp3'')) w))
           in if path_exists (fsys w2) (stem @ ''.mp3'') then (Inr (stem @ ''.mp3''), w2)
              else (Inl (SystemExit 1), print (ConvertFailed (stem @ ''.mp3'')) w2))))
   \<and> (lower ext = ''mp3'') =
       (\<exists>m q. ext = [m, q, CHR ''3''] \<and> (m = CHR ''m'' \<or> m = CHR ''M'') \<and>
              (q = CHR ''p'' \<or> q = CHR ''P''))"
proof (intro impI conjI)
  show "(lower ext = ''mp3'') =
       (\<exists>m q. ext = [m, q, CHR ''3''] \<and> (m = CHR ''m'' \<or> m = CHR ''M'') \<and>
              (q = CHR ''p'' \<or> q = CHR ''P''))"
    by (rule lower_ext_mp3)
next
  assume d: "CHR ''.'' \<notin> set ext" and l: "lower ext = ''mp3''"
  then have "endswith (lower (stem @ ''.'' @ ext)) ''.mp3''"
    using endswith_lower_ext [of ext stem] by blast
  then show "convert_to_mp3 E (stem @ ''.'' @ ext) w =
          (Inr (stem @ ''.'' @ ext),
           w\<lparr>trace := trace w @ [Print (AlreadyMp3 (stem @ ''.'' @ ext))]\<rparr>)"
    by (simp add: convert_to_mp3_def print_def emit_def)
next
  assume d: "CHR ''.'' \<notin> set ext" and l: "lower ext \<noteq> ''mp3''"
  then have n: "\<not> endswith (lower (stem @ ''.'' @ ext)) ''.mp3''"
    using endswith_lower_ext [of ext stem] by blast
  have h: "hd (rsplit1 CHR ''.'' (stem @ ''.'' @ ext)) = stem"
    using d by (rule hd_rsplit1_dot)
  show "convert_to_mp3 E (stem @ ''.'' @ ext) w =
          (let w2 = snd (os_system E (FfmpegConvert (stem @ ''.'' @ ext) (stem @ ''.mp3''))
                      (print (Converting (stem @ ''.'' @ ext) (stem @ ''.mp3'')) w))
           in if path_exists (fsys w2) (stem @ ''.mp3'') then (Inr (stem @ ''.mp3''), w2)
              else (Inl (SystemExit 1), print (ConvertFailed (stem @ ''.mp3'')) w2))"
    unfolding convert_to_mp3_def Let_def using n h by simp
qed

theorem convert_to_mp3_extension_witness:
  "convert_to_mp3 quiet_env ''talk.MP3'' \<lparr>fsys = [], trace = []\<rparr> =
     (Inr ''talk.MP3'', \<lparr>fsys = [], trace = [Print (AlreadyMp3 ''talk.MP3'')]\<rparr>)
   \<and> convert_to_mp3 quiet_env ''talk.wav'' \<lparr>fsys = [], trace = []\<rparr> =
     (Inl (SystemExit 1),
      \<lparr>fsys = [], trace = [Print (Converting ''talk.wav'' ''talk.mp3''),
         Exec (FfmpegConvert ''talk.wav'' ''talk.mp3''), Print (ConvertFailed ''talk.mp3'')]\<rparr>)"
  using convert_to_mp3_extension [where ext="''MP3''" and stem="''talk''" and E=quiet_env and w="\<lparr>fsys = [], trace = []\<rparr>"]
    convert_to_mp3_extension [where ext="''wav''" and stem="''talk''" and E=quiet_env and w="\<lparr>fsys = [], trace = []\<rparr>"]
  by (simp add: lower_MP3 os_system_def quiet_env_def print_def emit_def path_exists_def)

section \<open>Properties of the segmenter\<close>

lemma split_segments_trace:
  "trace (split_segments E file_path mp3_folder total_segments xs w) =
     trace w @ concat (map (interval_events file_path mp3_folder total_segments) xs)"
proof (induction xs arbitrary: w)
  case Nil
  then show ?case by simp
next
  case (Cons x xs)
  obtain idx segment where x: "x = (idx, segment)" by (cases x)
  show ?case
    unfolding x 
    by (simp add: Cons.IH interval_events_def Let_def print_def emit_def os_system_def)
qed

















text \<open>
  Claim C10. For an interval whose start sample is negative the start time is 0 and the
  duration is the end sample divided by 16000. The interval is retained exactly when that
  quotient is at least 0.5 and greater than 0, and is then cut from 0 for that duration.
\<close>

theorem negative_start_clamped:
  "seg_start segment < 0 \<Longrightarrow>
     start_time segment = 0
     \<and> duration segment = real_of_int (seg_end segment) / 16000
     \<and> (\<not> (start_time segment \<ge> end_time segment \<or> duration segment < 0.5)) =
         (real_of_int (seg_end segment) / 16000 \<ge> 0.5 \<and> real_of_int (seg_end segment) / 16000 > 0)
     \<and> split_segments E file_path mp3_folder total_segments ((idx, segment) # rest) w =
         (if real_of_int (seg_end segment) / 16000 \<ge> 0.5 \<and> real_of_int (seg_end segment) / 16000 > 0
          then split_segments E file_path mp3_folder total_segments rest
                 (snd (os_system E
                    (FfmpegCut file_path 0 (real_of_int (seg_end segment) / 16000)
                       (path_join mp3_folder (str_nat (idx + 1) @ ''.mp3'')))
                    (print (CuttingSegment (idx + 1) total_segments) w)))
          else split_segments E file_path mp3_folder total_segments rest
                 (print (SkipSegment (idx + 1)) w))"
proof -
  assume neg: "seg_start segment < 0"
  then have "real_of_int (seg_start segment) / 16000 < 0" by simp
  then have st: "start_time segment = 0" by (simp add: start_time_def max_def)
  have du: "duration segment = real_of_int (seg_end segment) / 16000"
    by (simp add: duration_def end_time_def st)
  have en: "end_time segment = real_of_int (seg_end segment) / 16000"
    by (simp add: end_time_def)
  show ?thesis
    unfolding split_segments.simps Let_def st du en by auto
qed


lemma str_nat_small:
  "str_nat (Suc 0) = ''1''" "str_nat 1 = ''1''" "str_nat 2 = ''2''" "str_nat 3 = ''3''"
  by code_simp+





theorem negative_start_clamped_witness:
  "start_time \<lparr>seg_start = - 1600, seg_end = 16000\<rparr> = 0
   \<and> duration \<lparr>seg_start = - 1600, seg_end = 16000\<rparr> = 1
   \<and> trace (split_segments quiet_env ''talk.mp3'' ''out'' 2
        [(0, \<lparr>seg_start = - 1600, seg_end = 16000\<rparr>), (1, \<lparr>seg_start = - 1600, seg_end = 4000\<rparr>)]
        empty_world) =
      [Print (CuttingSegment 1 2), Exec (FfmpegCut ''talk.mp3'' 0 1 ''out/1.mp3''),
       Print (SkipSegment 2)]"
proof -
  have a: "seg_start \<lparr>seg_start = - 1600, seg_end = 16000\<rparr> < 0" by simp
  have b: "seg_start \<lparr>seg_start = - 1600, seg_end = 4000\<rparr> < 0" by simp
  note ta = negative_start_clamped [OF a, of quiet_env "''talk.mp3''" "''out''" 2 0
     "[(1, \<lparr>seg_start = - 1600, seg_end = 4000\<rparr>)]" empty_world]
  note tb = negative_start_clamped [OF b, of quiet_env "''talk.mp3''" "''out''" 2 1 "[]"]
  from ta have s: "start_time \<lparr>seg_start = - 1600, seg_end = 16000\<rparr> = 0"
    and d: "duration \<lparr>seg_start = - 1600, seg_end = 16000\<rparr> = 1"
    by simp_all
  from ta tb have "trace (split_segments quiet_env ''talk.mp3'' ''out'' 2
        [(0, \<lparr>seg_start = - 1600, seg_end = 16000\<rparr>), (1, \<lparr>seg_start = - 1600, seg_end = 4000\<rparr>)]
        empty_world) =
      [Print (CuttingSegment 1 2), Exec (FfmpegCut ''talk.mp3'' 0 1 ''out/1.mp3''),
       Print (SkipSegment 2)]"
    by (simp add: os_system_def quiet_env_def print_def emit_def empty_world_def
          str_nat_small path_join_def start_time_def end_time_def duration_def)
  with s d show ?thesis by blast
qed

section \<open>Properties of the newline stripping\<close>

lemma isspace_newline: "isspace 10" "isspace 13" "isspace 32"
  by (simp_all add: isspace_def)

lemma strip_subset: "set (strip s) \<subseteq> set s"
proof
  fix x
  assume "x \<in> set (strip s)"
  then have "x \<in> set (dropWhile isspace (rev (dropWhile isspace s)))"
    by (simp add: strip_def)
  then have "x \<in> set (rev (dropWhile isspace s))" by (rule set_dropWhileD)
  then have "x \<in> set (dropWhile isspace s)" by simp
  then show "x \<in> set s" by (rule set_dropWhileD)
qed

lemma strip_snoc_space:
  assumes "isspace c"
  shows "strip (s @ [c]) = strip s"
proof (cases "\<forall>x\<in>set s. isspace x")
  case True
  then have a: "dropWhile isspace s = []"
    by (simp only: dropWhile_eq_Nil_conv)
  from True assms have "\<forall>x\<in>set (s @ [c]). isspace x" by simp
  then have b: "dropWhile isspace (s @ [c]) = []"
    by (simp only: dropWhile_eq_Nil_conv)
  show ?thesis by (simp add: strip_def a b)
next
  case False
  then obtain x where "x \<in> set s" "\<not> isspace x" by blast
  then have "dropWhile isspace (s @ [c]) = dropWhile isspace s @ [c]"
    by (rule dropWhile_append1)
  then show ?thesis using assms by (simp add: strip_def)
qed

lemma readlines_from_terminated:
  "10 \<notin> set line \<Longrightarrow> 13 \<notin> set line \<Longrightarrow> l \<in> set (readlines_from cr line cs) \<Longrightarrow> terminated l"
proof (induction cs arbitrary: cr line)
  case Nil
  then show ?case by (auto simp: terminated_def split: if_splits)
next
  case (Cons c cs)
  show ?case
  proof (cases "c = 10 \<or> c = 13")
    case True
    have here: "terminated (line @ [10])"
      using Cons.prems(1,2) by (auto simp: terminated_def)
    have rest: "l \<in> set (readlines_from b [] cs) \<Longrightarrow> terminated l" for b
      by (rule Cons.IH [of "[]"]) simp_all
    have same: "l \<in> set (readlines_from b line cs) \<Longrightarrow> terminated l" for b
      using Cons.prems(1,2) by (rule Cons.IH)
    from True Cons.prems(3) show ?thesis
      using here rest same by (auto split: if_splits)
  next
    case False
    then have "l \<in> set (readlines_from False (line @ [c]) cs)"
      using Cons.prems(3) by simp
    moreover have "10 \<notin> set (line @ [c])" "13 \<notin> set (line @ [c])"
      using False Cons.prems(1,2) by auto
    ultimately show ?thesis by (intro Cons.IH [of "line @ [c]"])
  qed
qed

lemma strip_terminated:
  assumes "terminated l"
  shows "10 \<notin> set (strip l) \<and> 13 \<notin> set (strip l)"
proof -
  from assms obtain body where l: "l = body \<or> l = body @ [10]"
    and b: "10 \<notin> set body" "13 \<notin> set body"
    unfolding terminated_def by blast
  have "strip l = strip body"
    using l by (auto simp: strip_snoc_space isspace_newline)
  then show ?thesis using b strip_subset [of body] by auto
qed

lemma join_space_subset: "set (join_space xs) \<subseteq> insert 32 (\<Union> (set ` set xs))"
  by (induction xs rule: join_space.induct) auto

lemma cleaned_no_newline:
  "10 \<notin> set (join_space (map strip (readlines content))) \<and>
   13 \<notin> set (join_space (map strip (readlines content)))"
proof -
  have "\<And>l. l \<in> set (readlines content) \<Longrightarrow> 10 \<notin> set (strip l) \<and> 13 \<notin> set (strip l)"
    unfolding readlines_def
    by (rule strip_terminated, rule readlines_from_terminated [of "[]"]) simp_all
  then show ?thesis
    using join_space_subset [of "map strip (readlines content)"] by auto
qed

lemma readlines_from_plain:
  "10 \<notin> set s \<Longrightarrow> 13 \<notin> set s \<Longrightarrow>
     readlines_from False line s = (if line @ s = [] then [] else [line @ s])"
  by (induction s arbitrary: line) auto

lemma readlines_plain:
  "10 \<notin> set s \<Longrightarrow> 13 \<notin> set s \<Longrightarrow> readlines s = (if s = [] then [] else [s])"
  using readlines_from_plain [of s "[]"] by (simp add: readlines_def)

lemma readlines_from_line:
  "10 \<notin> set l \<Longrightarrow> 13 \<notin> set l \<Longrightarrow>
     readlines_from False line (l @ 10 # rest) = (line @ l @ [10]) # readlines_from False [] rest"
  by (induction l arbitrary: line) auto

lemma readlines_lf_lines:
  "\<forall>l\<in>set ls. 10 \<notin> set l \<and> 13 \<notin> set l \<Longrightarrow>
     readlines (concat (map (\<lambda>l. l @ [10]) ls)) = map (\<lambda>l. l @ [10]) ls"
  unfolding readlines_def
  by (induction ls) (simp_all add: readlines_from_line)


lemma open_read_update: "open_read (AList.update p (File c) fs) p = Some c"
  by (simp add: open_read_def update_conv')

text \<open>
  Claim C4. For a transcript that can be read, the newline-stripping operation succeeds
  and leaves in the file the lines of the original (as \<open>readlines\<close> returns them),
  each stripped of surrounding white space, joined by single spaces. The new content
  holds neither LF nor CR, and reading it back gives one line (none when it is empty).
  In particular a file of lines \<open>ls\<close>, each ended by LF, is read as those lines and
  rewritten to the stripped lines joined by single spaces.
\<close>

theorem remove_newlines_single_line:
  "(open_read (fsys w) text_file = Some content \<longrightarrow>
     (let cleaned = join_space (map strip (readlines content));
          r = remove_newlines_from_text text_file w
      in fst r = Inr ()
         \<and> fsys (snd r) = AList.update text_file (File cleaned) (fsys w)
         \<and> open_read (fsys (snd r)) text_file = Some cleaned
         \<and> trace (snd r) = trace w @ [Wrote text_file, Print (NewlinesRemoved text_file)]
         \<and> 10 \<notin> set cleaned \<and> 13 \<notin> set cleaned
         \<and> readlines cleaned = (if cleaned = [] then [] else [cleaned])))
   \<and> ((\<forall>l\<in>set ls. 10 \<notin> set l \<and> 13 \<notin> set l) \<longrightarrow>
         readlines (concat (map (\<lambda>l. l @ [10]) ls)) = map (\<lambda>l. l @ [10]) ls
         \<and> join_space (map strip (readlines (concat (map (\<lambda>l. l @ [10]) ls)))) =
             join_space (map strip ls))"
proof (intro conjI impI)
  assume o: "open_read (fsys w) text_file = Some content"
  define cleaned where "cleaned = join_space (map strip (readlines content))"
  have n: "10 \<notin> set cleaned" "13 \<notin> set cleaned"
    unfolding cleaned_def using cleaned_no_newline [of content] by simp_all
  then have one: "readlines cleaned = (if cleaned = [] then [] else [cleaned])"
    by (rule readlines_plain)
  have r: "remove_newlines_from_text text_file w =
      (Inr (), \<lparr>fsys = AList.update text_file (File cleaned) (fsys w),
                trace = trace w @ [Wrote text_file, Print (NewlinesRemoved text_file)]\<rparr>)"
    using o by (simp add: remove_newlines_from_text_def cleaned_def write_file_def print_def emit_def)
  show "let cleaned = join_space (map strip (readlines content));
          r = remove_newlines_from_text text_file w
      in fst r = Inr ()
         \<and> fsys (snd r) = AList.update text_file (File cleaned) (fsys w)
         \<and> open_read (fsys (snd r)) text_file = Some cleaned
         \<and> trace (snd r) = trace w @ [Wrote text_file, Print (NewlinesRemoved text_file)]
         \<and> 10 \<notin> set cleaned \<and> 13 \<notin> set cleaned
         \<and> readlines cleaned = (if cleaned = [] then [] else [cleaned])"
    unfolding Let_def cleaned_def [symmetric] r using n one
    by (simp add: open_read_update)
next
  assume l: "\<forall>l\<in>set ls. 10 \<notin> set l \<and> 13 \<notin> set l"
  then show e: "readlines (concat (map (\<lambda>l. l @ [10]) ls)) = map (\<lambda>l. l @ [10]) ls"
    by (rule readlines_lf_lines)
  have "map strip (map (\<lambda>l. l @ [10]) ls) = map strip ls"
    by (simp add: strip_snoc_space isspace_newline)
  then show "join_space (map strip (readlines (concat (map (\<lambda>l. l @ [10]) ls)))) =
             join_space (map strip ls)"
    by (simp only: e)
qed

theorem remove_newlines_single_line_witness:
  "open_read (fsys transcript_world) ''out/1.mp3.txt'' = Some [32, 104, 105, 13, 10, 111, 107, 32, 10]
   \<and> remove_newlines_from_text ''out/1.mp3.txt'' transcript_world =
       (Inr (), \<lparr>fsys = [(''out/1.mp3.txt'', File [104, 105, 32, 111, 107])],
                 trace = [Wrote ''out/1.mp3.txt'', Print (NewlinesRemoved ''out/1.mp3.txt'')]\<rparr>)
   \<and> readlines [104, 105, 32, 111, 107] = [[104, 105, 32, 111, 107]]
   \<and> readlines [104, 105, 10, 111, 107, 10] = [[104, 105, 10], [111, 107, 10]]"
proof -
  have o: "open_read (fsys transcript_world) ''out/1.mp3.txt'' = Some [32, 104, 105, 13, 10, 111, 107, 32, 10]"
    by (simp add: transcript_world_def open_read_def)
  have c: "join_space (map strip (readlines [32, 104, 105, 13, 10, 111, 107, 32, 10])) = [104, 105, 32, 111, 107]"
    by (simp add: readlines_def strip_def isspace_def)
  have l: "\<forall>l\<in>set [[104, 105], [111, 107::nat]]. 10 \<notin> set l \<and> 13 \<notin> set l"
    by simp
  note t = remove_newlines_single_line
    [of transcript_world "''out/1.mp3.txt''" "[32, 104, 105, 13, 10, 111, 107, 32, 10]"
        "[[104, 105], [111, 107]]"]
  from t o have a: "(let cleaned = join_space (map strip (readlines [32, 104, 105, 13, 10, 111, 107, 32, 10]));
          r = remove_newlines_from_text ''out/1.mp3.txt'' transcript_world
      in fst r = Inr ()
         \<and> fsys (snd r) = AList.update ''out/1.mp3.txt'' (File cleaned) (fsys transcript_world)
         \<and> open_read (fsys (snd r)) ''out/1.mp3.txt'' = Some cleaned
         \<and> trace (snd r) = trace transcript_world @ [Wrote ''out/1.mp3.txt'', Print (NewlinesRemoved ''out/1.mp3.txt'')]
         \<and> 10 \<notin> set cleaned \<and> 13 \<notin> set cleaned
         \<and> readlines cleaned = (if cleaned = [] then [] else [cleaned]))"
    by blast
  from t l have b: "readlines (concat (map (\<lambda>l. l @ [10]) [[104, 105], [111, 107]])) =
      map (\<lambda>l. l @ [10]) [[104, 105], [111, 107]]"
    by blast
  from a have r1: "fst (remove_newlines_from_text ''out/1.mp3.txt'' transcript_world) = Inr ()"
    and r2: "fsys (snd (remove_newlines_from_text ''out/1.mp3.txt'' transcript_world)) =
       [(''out/1.mp3.txt'', File [104, 105, 32, 111, 107])]"
    and r3: "trace (snd (remove_newlines_from_text ''out/1.mp3.txt'' transcript_world)) =
       [Wrote ''out/1.mp3.txt'', Print (NewlinesRemoved ''out/1.mp3.txt'')]"
    and r4: "readlines [104, 105, 32, 111, 107] = [[104, 105, 32, 111, 107]]"
    unfolding Let_def c by (simp_all add: transcript_world_def)
  have "remove_newlines_from_text ''out/1.mp3.txt'' transcript_world =
       (Inr (), \<lparr>fsys = [(''out/1.mp3.txt'', File [104, 105, 32, 111, 107])],
                 trace = [Wrote ''out/1.mp3.txt'', Print (NewlinesRemoved ''out/1.mp3.txt'')]\<rparr>)"
    using r1 r2 r3 by (cases "remove_newlines_from_text ''out/1.mp3.txt'' transcript_world") auto
  with o r4 b show ?thesis by simp
qed

section \<open>Properties of the config loader\<close>

lemma read_config_failure:
  "read_config E fs p = Inl e \<longleftrightarrow>
     (open_read fs p = None \<and> e = OSError) \<or>
     (\<exists>c. open_read fs p = Some c \<and> json_load E c = None \<and> e = ValueError)"
  by (auto simp: read_config_def split: option.splits)

text \<open>
  Claim C7. When reading the configuration fails (the path is there but cannot be opened
  as a file) or parsing it fails (\<open>json.load\<close> raises), \<open>load_config\<close> returns the
  default configuration, reports the error and the configuration in use, and leaves the
  filesystem alone; it has no way to abort. The defaults are the five values 500, 700,
  18, 10 and 0.6, and they are what the detector is then called with.
\<close>

theorem load_config_defaults_on_failure:
  "(read_config E (fsys w) (resource_path E CONFIG_FILE) = Inl e \<longrightarrow>
      load_config E w =
        (DEFAULT_CONFIG,
         w\<lparr>trace := trace w @
            (if path_exists (fsys w) (resource_path E CONFIG_FILE) then [Print (ConfigLoadError e)] else []) @
            [Print (CurrentVadConfig DEFAULT_CONFIG)]\<rparr>))
   \<and> (read_config E (fsys w) (resource_path E CONFIG_FILE) = Inl e \<longleftrightarrow>
        (open_read (fsys w) (resource_path E CONFIG_FILE) = None \<and> e = OSError) \<or>
        (\<exists>c. open_read (fsys w) (resource_path E CONFIG_FILE) = Some c \<and> json_load E c = None
              \<and> e = ValueError))
   \<and> DEFAULT_CONFIG = JObj
        [(''min_speech_duration_ms'', JNum 500),
         (''min_silence_duration_ms'', JNum 700),
         (''max_speech_duration_s'', JNum 18),
         (''speech_pad_ms'', JNum 10),
         (''threshold'', JNum 0.6)]
   \<and> vad_arguments DEFAULT_CONFIG = Inr [JNum 500, JNum 700, JNum 18, JNum 10, JNum 0.6]"
proof (intro conjI impI)
  assume "read_config E (fsys w) (resource_path E CONFIG_FILE) = Inl e"
  then show "load_config E w =
        (DEFAULT_CONFIG,
         w\<lparr>trace := trace w @
            (if path_exists (fsys w) (resource_path E CONFIG_FILE) then [Print (ConfigLoadError e)] else []) @
            [Print (CurrentVadConfig DEFAULT_CONFIG)]\<rparr>)"
    by (simp add: load_config_def Let_def print_def emit_def)
next
  show "read_config E (fsys w) (resource_path E CONFIG_FILE) = Inl e \<longleftrightarrow>
        (open_read (fsys w) (resource_path E CONFIG_FILE) = None \<and> e = OSError) \<or>
        (\<exists>c. open_read (fsys w) (resource_path E CONFIG_FILE) = Some c \<and> json_load E c = None
              \<and> e = ValueError)"
    by (rule read_config_failure)
next
  show "DEFAULT_CONFIG = JObj
        [(''min_speech_duration_ms'', JNum 500),
         (''min_silence_duration_ms'', JNum 700),
         (''max_speech_duration_s'', JNum 18),
         (''speech_pad_ms'', JNum 10),
         (''threshold'', JNum 0.6)]"
    by (simp add: DEFAULT_CONFIG_def)
next
  show "vad_arguments DEFAULT_CONFIG = Inr [JNum 500, JNum 700, JNum 18, JNum 10, JNum 0.6]"
    by (simp add: vad_arguments_def DEFAULT_CONFIG_def dict_get_def)
qed

theorem load_config_defaults_on_failure_witness:
  "read_config quiet_env (fsys broken_config_world) (resource_path quiet_env CONFIG_FILE) = Inl ValueError
   \<and> load_config quiet_env broken_config_world =
       (DEFAULT_CONFIG,
        \<lparr>fsys = [(''/app/config.json'', File [123])],
         trace = [Print (ConfigLoadError ValueError), Print (CurrentVadConfig DEFAULT_CONFIG)]\<rparr>)"
proof -
  have p: "resource_path quiet_env CONFIG_FILE = ''/app/config.json''"
    by (simp add: resource_path_def quiet_env_def CONFIG_FILE_def path_join_def)
  have r: "read_config quiet_env (fsys broken_config_world) (resource_path quiet_env CONFIG_FILE) = Inl ValueError"
    unfolding p by (simp add: read_config_def open_read_def broken_config_world_def quiet_env_def)
  have x: "path_exists (fsys broken_config_world) ''/app/config.json''"
    by (simp add: path_exists_def broken_config_world_def)
  from load_config_defaults_on_failure [of quiet_env broken_config_world ValueError] r
  have "load_config quiet_env broken_config_world =
        (DEFAULT_CONFIG,
         broken_config_world\<lparr>trace := trace broken_config_world @
            (if path_exists (fsys broken_config_world) (resource_path quiet_env CONFIG_FILE)
             then [Print (ConfigLoadError ValueError)] else []) @
            [Print (CurrentVadConfig DEFAULT_CONFIG)]\<rparr>)"
    by blast
  then have "load_config quiet_env broken_config_world =
       (DEFAULT_CONFIG,
        \<lparr>fsys = [(''/app/config.json'', File [123])],
         trace = [Print (ConfigLoadError ValueError), Print (CurrentVadConfig DEFAULT_CONFIG)]\<rparr>)"
    unfolding p using x by (simp add: broken_config_world_def)
  with r show ?thesis by blast
qed

section \<open>Properties of the transcriber\<close>


















lemma print_lines_trace:
  "fold (\<lambda>line. print (WhisperLine (strip line))) ls w =
     w\<lparr>trace := trace w @ map (\<lambda>line. Print (WhisperLine (strip line))) ls\<rparr>"
  by (induction ls arbitrary: w) (simp_all add: print_def emit_def)







section \<open>Properties of the entry point\<close>

subsection \<open>The installation runs no step of the pipeline\<close>

lemma no_step_refl: "no_step w w"
  by (simp add: no_step_def)

lemma no_step_trans: "no_step w w1 \<Longrightarrow> no_step w1 w2 \<Longrightarrow> no_step w w2"
  by (auto simp: no_step_def)

lemma no_step_print: "\<not> step_message m \<Longrightarrow> no_step w (print m w)"
  by (simp add: no_step_def print_def emit_def step_event_def)

lemma no_step_progress: "no_step w (print (Progress m v) w)"
  by (rule no_step_print) (simp add: step_message_def)

lemma no_step_subprocess_run_shell:
  "\<not> step_command c \<Longrightarrow> no_step w (snd (subprocess_run_shell E c w))"
  by (simp add: no_step_def subprocess_run_shell_def Let_def step_event_def)

lemma no_step_subprocess_run:
  "\<not> step_command c \<Longrightarrow> no_step w (snd (subprocess_run E c w))"
  by (simp add: no_step_def subprocess_run_def Let_def step_event_def split: option.splits)

lemma no_step_makedirs: "no_step w (snd (makedirs p w))"
  by (simp add: no_step_def makedirs_def Let_def step_event_def)

lemma no_step_copy2: "no_step w (snd (copy2 a b w))"
  by (simp add: no_step_def copy2_def step_event_def split: option.splits node.splits)

lemma no_step_copytree: "no_step w (snd (copytree a b w))"
  by (simp add: no_step_def copytree_def Let_def step_event_def)

lemma installsI:
  "no_step w w' \<Longrightarrow> (\<And>a. r = Inl a \<Longrightarrow> exit_status a = 1) \<Longrightarrow> installs w (r, w')"
  by (simp add: installs_def split: sum.splits)

lemma installs_no_step: "installs w rw \<Longrightarrow> no_step w (snd rw)"
  by (simp add: installs_def)

lemma installs_status: "installs w (Inl a, w') \<Longrightarrow> exit_status a = 1"
  by (simp add: installs_def)

lemma installs_from: "no_step w w1 \<Longrightarrow> installs w1 rw \<Longrightarrow> installs w rw"
  by (auto simp: installs_def intro: no_step_trans)

lemma installs_check_and_install:
  "installs w (check_and_install_system_dependencies E w)"
proof (cases "platform_system E = ''Linux''")
  case False
  then show ?thesis
    by (simp add: check_and_install_system_dependencies_def installs_def no_step_print step_message_def)
next
  case True
  let ?w1 = "print (Progress InstallingPackages 0) w"
  let ?sudo = "geteuid E \<noteq> 0"
  obtain r2 w2 where s2: "subprocess_run_shell E (AptGetUpdate ?sudo) ?w1 = (r2, w2)"
    by (cases "subprocess_run_shell E (AptGetUpdate ?sudo) ?w1")
  obtain r3 w3 where s3: "subprocess_run_shell E (AptGetInstall ?sudo) w2 = (r3, w3)"
    by (cases "subprocess_run_shell E (AptGetInstall ?sudo) w2")
  have n1: "no_step w ?w1" by (rule no_step_progress)
  have n2: "no_step ?w1 w2"
    using no_step_subprocess_run_shell [of "AptGetUpdate ?sudo" ?w1 E] s2
    by (simp add: step_command_def)
  have n3: "no_step w2 w3"
    using no_step_subprocess_run_shell [of "AptGetInstall ?sudo" w2 E] s3
    by (simp add: step_command_def)
  have n12: "no_step w w2" using n1 n2 by (rule no_step_trans)
  have n13: "no_step w w3" using n12 n3 by (rule no_step_trans)
  show ?thesis
    using True s2 s3 n12 n13
    by (auto simp: check_and_install_system_dependencies_def Let_def installs_def
          split: sum.splits)
qed

lemma installs_copy_prebundled:
  "installs w (copy_prebundled src dest m1 m2 m3 m4 w)"
proof -
  obtain rt wt where t: "copytree src dest w = (rt, wt)" by (cases "copytree src dest w")
  obtain rc wc where c: "copy2 src dest w = (rc, wc)" by (cases "copy2 src dest w")
  have nt: "no_step w wt" using no_step_copytree [of w src dest] t by simp
  have nc: "no_step w wc" using no_step_copy2 [of w src dest] c by simp
  have pt: "no_step w (print (Progress m 30) wt)" for m
    using nt no_step_progress by (rule no_step_trans)
  have pc: "no_step w (print (Progress m 30) wc)" for m
    using nc no_step_progress by (rule no_step_trans)
  show ?thesis
    using t c nt nc pt pc no_step_progress [of w]
    by (auto simp: copy_prebundled_def installs_def split: sum.splits)
qed

lemma installs_bind:
  assumes "installs w rw"
    and "\<And>x w1. rw = (Inr x, w1) \<Longrightarrow> installs w1 (g x w1)"
  shows "installs w (case rw of (Inl a, w1) \<Rightarrow> (Inl a, w1) | (Inr x, w1) \<Rightarrow> g x w1)"
proof (cases rw)
  case (Pair r w1)
  show ?thesis
  proof (cases r)
    case (Inl a)
    with Pair assms(1) show ?thesis by (simp add: installs_def)
  next
    case (Inr x)
    with Pair assms(1) have "no_step w w1" by (simp add: installs_def)
    moreover from Pair Inr have "installs w1 (g x w1)" by (intro assms(2)) simp
    ultimately have "installs w (g x w1)" by (rule installs_from)
    with Pair Inr show ?thesis by simp
  qed
qed

lemma installs_exn:
  assumes "no_step w (snd rw)"
    and "\<And>x w1. rw = (Inr x, w1) \<Longrightarrow> installs w1 (g x w1)"
  shows "installs w (case rw of (Inl e, w1) \<Rightarrow> (Inl (Uncaught e), w1) | (Inr x, w1) \<Rightarrow> g x w1)"
proof (cases rw)
  case (Pair r w1)
  with assms(1) have n: "no_step w w1" by simp
  show ?thesis
  proof (cases r)
    case (Inl e)
    with Pair n show ?thesis by (simp add: installs_def)
  next
    case (Inr x)
    with Pair have "installs w1 (g x w1)" by (intro assms(2)) simp
    with n have "installs w (g x w1)" by (rule installs_from)
    with Pair Inr show ?thesis by simp
  qed
qed

lemma installs_return: "no_step w w' \<Longrightarrow> installs w (Inr x, w')"
  by (simp add: installs_def)

lemma installs_copy_prebundled_files: "installs w (copy_prebundled_files E w)"
  unfolding copy_prebundled_files_def Let_def
  by (intro installs_exn no_step_makedirs installs_bind installs_copy_prebundled)


lemma no_step_run_after_progress:
  "\<not> step_command c \<Longrightarrow> no_step w (snd (subprocess_run E c (print (Progress m v) w)))"
  by (rule no_step_trans [OF no_step_progress no_step_subprocess_run])

lemma installs_download_and_build_whisper: "installs w (download_and_build_whisper E w)"
proof -
  let ?target = "resource_path E ''whisper.cpp''"
  let ?cloned = "(if \<not> path_exists (fsys w) ?target
             then
               (case subprocess_run E GitClone (print (Progress Cloning 10) w) of
                  (Inr _, w1) \<Rightarrow> (Inr (), w1)
                | (Inl e, w1) \<Rightarrow>
                    if e = CalledProcessError
                    then copy_prebundled_files E
                           (print (Progress UsingPrebundled 10) (print (Progress CloneFailed 10) w1))
                    else (Inl (Uncaught e), w1))
             else (Inr (), print (Progress RepoPresent 10) w))"
  have c: "installs w ?cloned"
  proof (cases "path_exists (fsys w) ?target")
    case True
    then show ?thesis by (simp add: installs_return no_step_progress)
  next
    case False
    obtain r w1 where g: "subprocess_run E GitClone (print (Progress Cloning 10) w) = (r, w1)"
      by (cases "subprocess_run E GitClone (print (Progress Cloning 10) w)")
    have n: "no_step w w1"
      using no_step_run_after_progress [of GitClone w E Cloning 10] g
      by (simp add: step_command_def)
    have "installs w (copy_prebundled_files E
             (print (Progress UsingPrebundled 10) (print (Progress CloneFailed 10) w1)))"
      by (intro installs_from [OF _ installs_copy_prebundled_files] no_step_trans [OF n]
            no_step_trans [OF no_step_progress no_step_progress])
    with False g n show ?thesis
      by (cases r) (simp_all add: installs_def)
  qed
  have "installs w
     (case ?cloned of
        (Inl a, w2) \<Rightarrow> (Inl a, w2)
      | (Inr _, w2) \<Rightarrow>
          (case copy_prebundled_files E w2 of
             (Inl a, w3) \<Rightarrow> (Inl a, w3)
           | (Inr _, w3) \<Rightarrow>
               (case subprocess_run E (CMakeConfigure ?target)
                       (print (Progress CMakeConfiguring 40) w3) of
                  (Inl e, w4) \<Rightarrow> (Inl (Uncaught e), w4)
                | (Inr _, w4) \<Rightarrow>
                    (case subprocess_run E
                            (CMakeBuild ?target (platform_system E = ''Windows''))
                            (print (Progress ProjectBuilding 50) w4) of
                       (Inl e, w5) \<Rightarrow> (Inl (Uncaught e), w5)
                     | (Inr _, w5) \<Rightarrow> (Inr (), print (Progress BuildDone 70) w5)))))"
    by (intro installs_bind c installs_copy_prebundled_files installs_exn
          no_step_run_after_progress installs_return no_step_progress)
       (simp_all add: step_command_def)
  then show ?thesis
    by (simp add: download_and_build_whisper_def Let_def)
qed

lemma installs_installation_process: "installs w (installation_process E w)"
proof -
  let ?w2 = "print (Progress (OsArch (platform_system E) (platform_machine E)) 5)
               (print (Progress CheckingSystem 0) w)"
  let ?body = "(case check_and_install_system_dependencies E ?w2 of
               (Inl a, w3) \<Rightarrow> (Inl a, w3)
             | (Inr _, w3) \<Rightarrow>
                 if \<not> check_whisper_cli E (fsys w3)
                 then (case download_and_build_whisper E (print (Progress WhisperMissing 5) w3) of
                         (Inl a, w4) \<Rightarrow> (Inl a, w4)
                       | (Inr _, w4) \<Rightarrow> (Inr True, print (Progress InstallDone 100) w4))
                 else (Inr True, print (Progress InstallDone 100) (print (Progress WhisperPresent 70) w3)))"
  have n2: "no_step w ?w2"
    by (rule no_step_trans [OF no_step_progress no_step_progress])
  have inner: "installs w3
      (if \<not> check_whisper_cli E (fsys w3)
       then (case download_and_build_whisper E (print (Progress WhisperMissing 5) w3) of
               (Inl a, w4) \<Rightarrow> (Inl a, w4)
             | (Inr _, w4) \<Rightarrow> (Inr True, print (Progress InstallDone 100) w4))
       else (Inr True, print (Progress InstallDone 100) (print (Progress WhisperPresent 70) w3)))"
    for w3
  proof (cases "check_whisper_cli E (fsys w3)")
    case True
    then show ?thesis
      by (simp add: installs_return no_step_trans [OF no_step_progress no_step_progress])
  next
    case False
    have "installs w3
       (case download_and_build_whisper E (print (Progress WhisperMissing 5) w3) of
               (Inl a, w4) \<Rightarrow> (Inl a, w4)
             | (Inr _, w4) \<Rightarrow> (Inr True, print (Progress InstallDone 100) w4))"
      by (intro installs_bind installs_from [OF no_step_progress installs_download_and_build_whisper]
            installs_return no_step_progress)
    with False show ?thesis by simp
  qed
  have "installs ?w2 ?body"
    by (intro installs_bind installs_check_and_install inner)
  with n2 have b: "installs w ?body" by (rule installs_from)
  obtain r w5 where rb: "?body = (r, w5)" by (cases ?body)
  have "installs w (case (r, w5) of
           (Inl (Uncaught e), w5) \<Rightarrow> (Inl (Uncaught e), print (Progress (ErrorOccurred e) 100) w5)
         | r \<Rightarrow> r)"
  proof (cases r)
    case (Inr x)
    with b rb show ?thesis by simp
  next
    case (Inl a)
    show ?thesis
    proof (cases a)
      case (SystemExit n)
      with Inl b rb show ?thesis by simp
    next
      case (Uncaught e)
      from b rb have "no_step w w5" by (simp add: installs_def)
      then have "no_step w (print (Progress (ErrorOccurred e) 100) w5)"
        using no_step_progress by (rule no_step_trans)
      with Inl Uncaught show ?thesis by (simp add: installs_def)
    qed
  qed
  then show ?thesis
    unfolding installation_process_def Let_def rb .
qed

subsection \<open>The steps only add to the trace\<close>

lemma trace_print: "trace (print m w) = trace w @ [Print m]"
  by (simp add: print_def emit_def)

lemma trace_emit: "trace (emit e w) = trace w @ [e]"
  by (simp add: emit_def)

lemma trace_os_system: "trace (snd (os_system E c w)) = trace w @ [Exec c]"
  by (simp add: os_system_def Let_def)

lemma growsI: "trace w' = trace w @ es \<Longrightarrow> grows w (r, w')"
  by (auto simp: grows_def)

lemma grows_from: "grows w (x, w1) \<Longrightarrow> grows w1 rw \<Longrightarrow> grows w rw"
  by (auto simp: grows_def)

lemma grows_bind:
  assumes "grows w rw"
    and "\<And>x w1. rw = (Inr x, w1) \<Longrightarrow> grows w1 (g x w1)"
  shows "grows w (case rw of (Inl a, w1) \<Rightarrow> (Inl a, w1) | (Inr x, w1) \<Rightarrow> g x w1)"
proof (cases rw)
  case (Pair r w1)
  show ?thesis
  proof (cases r)
    case (Inl a)
    with Pair assms(1) show ?thesis by (simp add: grows_def)
  next
    case (Inr x)
    with Pair assms(1) have "grows w (x, w1)" by (simp add: grows_def)
    moreover from Pair Inr have "grows w1 (g x w1)" by (intro assms(2)) simp
    ultimately have "grows w (g x w1)" by (rule grows_from)
    with Pair Inr show ?thesis by simp
  qed
qed

lemma grows_exn:
  assumes "grows w rw"
    and "\<And>x w1. rw = (Inr x, w1) \<Longrightarrow> grows w1 (g x w1)"
  shows "grows w (case rw of (Inl e, w1) \<Rightarrow> (Inl (Uncaught e), w1) | (Inr x, w1) \<Rightarrow> g x w1)"
proof (cases rw)
  case (Pair r w1)
  show ?thesis
  proof (cases r)
    case (Inl a)
    with Pair assms(1) show ?thesis by (simp add: grows_def)
  next
    case (Inr x)
    with Pair assms(1) have "grows w (x, w1)" by (simp add: grows_def)
    moreover from Pair Inr have "grows w1 (g x w1)" by (intro assms(2)) simp
    ultimately have "grows w (g x w1)" by (rule grows_from)
    with Pair Inr show ?thesis by simp
  qed
qed

lemma grows_option:
  assumes "grows w rw0" and "\<And>x. grows w (g x)"
  shows "grows w (case opt of None \<Rightarrow> rw0 | Some x \<Rightarrow> g x)"
  using assms by (cases opt) simp_all

lemma grows_sum:
  assumes "\<And>e. grows w (h e)" and "\<And>x. grows w (g x)"
  shows "grows w (case s of Inl e \<Rightarrow> h e | Inr x \<Rightarrow> g x)"
  using assms by (cases s) simp_all

lemma grows_check_ffmpeg: "grows w (check_ffmpeg E w)"
  by (simp add: check_ffmpeg_def grows_def os_system_def Let_def trace_print)

lemma grows_convert_to_mp3: "grows w (convert_to_mp3 E p w)"
  by (simp add: convert_to_mp3_def grows_def Let_def trace_print trace_os_system)

lemma grows_makedirs: "grows w (makedirs p w)"
  by (simp add: makedirs_def grows_def Let_def)

lemma grows_split_audio: "grows w (split_audio E cfg p w)"
  unfolding split_audio_def Let_def
  by (intro grows_bind grows_exn grows_option grows_sum grows_check_ffmpeg grows_makedirs
        grows_convert_to_mp3)
     (simp_all add: grows_def trace_print trace_emit split_segments_trace)

lemma grows_remove_newlines: "grows w (remove_newlines_from_text p w)"
  by (simp add: remove_newlines_from_text_def grows_def Let_def write_file_def trace_print
        split: option.splits)

lemma grows_shutil_move: "grows w (shutil_move a b w)"
  by (simp add: shutil_move_def grows_def Let_def split: option.splits)

lemma grows_collect_transcripts: "grows w (collect_transcripts tf files w)"
proof (induction files arbitrary: w)
  case Nil
  then show ?case by (simp add: grows_def)
next
  case (Cons f rest)
  have m: "grows w (collect_transcripts tf rest (print (TxtMissing (f @ ''.txt'')) w))"
    by (rule grows_from [OF _ Cons.IH, of _ "()"]) (simp add: grows_def trace_print)
  have h: "grows w
     (case remove_newlines_from_text (f @ ''.txt'') w of
              (Inl a, w1) \<Rightarrow> (Inl a, w1)
            | (Inr _, w1) \<Rightarrow>
                (case shutil_move (f @ ''.txt'') (path_join tf (basename (f @ ''.txt''))) w1 of
                      (Inl e, w2) \<Rightarrow> (Inl (Uncaught e), w2)
                    | (Inr _, w2) \<Rightarrow>
                        collect_transcripts tf rest
                          (print (Transcribed (basename f) (path_join tf (basename (f @ ''.txt'')))) w2)))"
    by (intro grows_bind grows_exn grows_remove_newlines grows_shutil_move
          grows_from [OF _ Cons.IH, of _ "()"])
       (simp add: grows_def trace_print)
  show ?case
    unfolding collect_transcripts.simps Let_def using m h by simp
qed


lemma trace_print_lines:
  "trace (fold (\<lambda>line. print (WhisperLine (strip line))) ls w) =
     trace w @ map (\<lambda>line. Print (WhisperLine (strip line))) ls"
  by (simp add: print_lines_trace)

lemma grows_transcribe_audio: "grows w (transcribe_audio E mp3 tf w)"
proof -
  let ?files = "list_audio_files (fsys w) mp3"
  let ?w1 = "print WhisperStarting (print (WhisperCount (length ?files)) w)"
  let ?cmd = "WhisperCli (WHISPER_CLI E) (WHISPER_MODEL E) ?files"
  let ?p = "run E ?cmd (fsys ?w1)"
  let ?w2 = "emit (Exec ?cmd) ?w1"
  let ?w3 = "fold (\<lambda>line. print (WhisperLine (strip line))) (stdout_lines ?p)
               (?w2\<lparr>fsys := fs_after ?p\<rparr>)"
  have w3: "grows w ((), ?w3)"
    by (simp add: grows_def trace_print trace_emit trace_print_lines)
  have c: "grows w
     (case collect_transcripts tf ?files ?w3 of
        (Inl a, w4) \<Rightarrow> (Inl a, w4)
      | (Inr _, w4) \<Rightarrow> (Inr (), print (TranscribeDone tf) w4))"
    by (rule grows_from [OF w3])
       (intro grows_bind grows_collect_transcripts, simp add: grows_def trace_print)
  have e: "grows w (r, ?w2)" for r :: "abort + unit"
    by (simp add: grows_def trace_print trace_emit)
  have m: "grows w (r, print (FolderMissing mp3) w)" for r :: "abort + unit"
    by (simp add: grows_def trace_print)
  have z: "grows w (r, w)" for r :: "abort + unit"
    by (simp add: grows_def)
  show ?thesis
    unfolding transcribe_audio_def Let_def
    using c e m z by simp
qed

lemma grows_pipeline: "grows w (pipeline E cfg p w)"
proof -
  have t: "grows w2
     (case transcribe_audio E m t w2 of
        (Inl a, w3) \<Rightarrow> (Inl a, w3)
      | (Inr _, w3) \<Rightarrow> (Inr (), print ProcessingDone w3))" for m t w2
    by (intro grows_bind grows_transcribe_audio) (simp add: grows_def trace_print)
  have "grows (print ProcessingStart w)
     (case convert_to_mp3 E p (print ProcessingStart w) of
        (Inl a, w1) \<Rightarrow> (Inl a, w1)
      | (Inr file_path, w1) \<Rightarrow>
          (case split_audio E cfg file_path w1 of
             (Inl a, w2) \<Rightarrow> (Inl a, w2)
           | (Inr (output_folder, mp3_folder, text_folder), w2) \<Rightarrow>
               (case transcribe_audio E mp3_folder text_folder w2 of
                  (Inl a, w3) \<Rightarrow> (Inl a, w3)
                | (Inr _, w3) \<Rightarrow> (Inr (), print ProcessingDone w3))))"
    by (intro grows_bind grows_convert_to_mp3 grows_split_audio) (auto intro!: t)
  moreover have "grows w ((), print ProcessingStart w)"
    by (simp add: grows_def trace_print)
  ultimately show ?thesis
    unfolding pipeline_def by (rule grows_from [rotated])
qed

lemma pipeline_trace:
  "\<exists>es. trace (snd (pipeline E cfg p w)) = trace w @ es"
  using grows_pipeline [of w E cfg p] by (simp add: grows_def)

subsection \<open>The first run\<close>

lemma default_file_not_marker: "path_join c ''Tvoice.mp3'' \<noteq> marker"
proof
  assume "path_join c ''Tvoice.mp3'' = marker"
  then have "last (path_join c ''Tvoice.mp3'') = last marker" by simp
  then show False by (simp add: path_join_def marker_def split: if_splits)
qed

lemma path_exists_write_other:
  "p \<noteq> q \<Longrightarrow> path_exists (fsys (write_file q c w)) p = path_exists (fsys w) p"
  by (simp add: path_exists_def write_file_def update_conv')

lemma choose_file_first_run:
  assumes "\<not> truthy args_filepath" "\<not> path_exists (fsys w) marker"
  shows "choose_file E args_filepath w =
     (case installation_process E (print FirstRun w) of
        (Inl a, w1) \<Rightarrow> (Inl a, w1)
      | (Inr _, w1) \<Rightarrow>
          if \<not> path_exists (fsys w1) (path_join (getcwd E) ''Tvoice.mp3'')
          then (Inl (SystemExit 1), print DefaultFileMissing (write_file marker (ascii ''installed'') w1))
          else (Inr (path_join (getcwd E) ''Tvoice.mp3''), write_file marker (ascii ''installed'') w1))"
  using assms
  by (simp add: choose_file_def Let_def path_exists_write_other default_file_not_marker
        split: prod.splits sum.splits)

text \<open>
  Claim C1, as amended. When the program is started without a file argument and the
  marker is absent, the trace continues with the first-run message and the events of the
  installation, none of which is an event of a step. When the installation fails the
  trace ends there and the program aborts with the failure of the installation; when it
  completes, the next event is the writing of the marker, and whatever the steps do comes
  after it. When a file argument is given the entry point is the pipeline on that file:
  the marker is not looked at and nothing is installed.
\<close>

theorem first_run_installs_before_steps:
  fixes E vad_config args_filepath w
  defines "inst \<equiv> installation_process E (print FirstRun w)"
  shows "(\<not> truthy args_filepath \<and> \<not> path_exists (fsys w) marker \<longrightarrow>
      (\<exists>ies rest.
         trace (snd inst) = trace w @ Print FirstRun # ies
         \<and> list_all (\<lambda>e. \<not> step_event e) ies
         \<and> trace (snd (main E vad_config args_filepath w)) = trace w @ Print FirstRun # ies @ rest
         \<and> (case fst inst of
              Inl a \<Rightarrow> rest = [] \<and> fst (main E vad_config args_filepath w) = Inl a
            | Inr x \<Rightarrow> \<exists>es. rest = Wrote marker # es)))
    \<and> (truthy args_filepath \<longrightarrow>
         main E vad_config args_filepath w = pipeline E vad_config (the args_filepath) w)"
proof (intro conjI impI)
  assume t: "truthy args_filepath"
  then show "main E vad_config args_filepath w = pipeline E vad_config (the args_filepath) w"
    by (simp add: main_def choose_file_def)
next
  assume a: "\<not> truthy args_filepath \<and> \<not> path_exists (fsys w) marker"
  obtain r w1 where i: "inst = (r, w1)" by (cases inst)
  have "installs (print FirstRun w) inst"
    unfolding inst_def by (rule installs_installation_process)
  then have "no_step (print FirstRun w) w1" using i by (simp add: installs_def)
  then obtain ies where ies: "trace w1 = trace w @ Print FirstRun # ies"
    and quiet: "list_all (\<lambda>e. \<not> step_event e) ies"
    by (auto simp: no_step_def trace_print)
  let ?default = "path_join (getcwd E) ''Tvoice.mp3''"
  let ?w2 = "write_file marker (ascii ''installed'') w1"
  have c: "choose_file E args_filepath w =
     (case inst of
        (Inl a, w1) \<Rightarrow> (Inl a, w1)
      | (Inr _, w1) \<Rightarrow>
          if \<not> path_exists (fsys w1) ?default
          then (Inl (SystemExit 1), print DefaultFileMissing (write_file marker (ascii ''installed'') w1))
          else (Inr ?default, write_file marker (ascii ''installed'') w1))"
    unfolding inst_def using a by (intro choose_file_first_run) simp_all
  have w2: "trace ?w2 = trace w @ Print FirstRun # ies @ [Wrote marker]"
    by (simp add: write_file_def ies)
  have "\<exists>rest. trace (snd (main E vad_config args_filepath w)) = trace w @ Print FirstRun # ies @ rest
         \<and> (case r of
              Inl a \<Rightarrow> rest = [] \<and> fst (main E vad_config args_filepath w) = Inl a
            | Inr x \<Rightarrow> \<exists>es. rest = Wrote marker # es)"
  proof (cases r)
    case (Inl b)
    then show ?thesis by (simp add: main_def c i ies)
  next
    case (Inr x)
    show ?thesis
    proof (cases "path_exists (fsys w1) ?default")
      case False
      with Inr show ?thesis by (simp add: main_def c i trace_print w2)
    next
      case True
      obtain es where "trace (snd (pipeline E vad_config ?default ?w2)) = trace ?w2 @ es"
        using pipeline_trace by blast
      with True Inr show ?thesis by (simp add: main_def c i w2)
    qed
  qed
  with ies quiet i show "\<exists>ies rest.
         trace (snd inst) = trace w @ Print FirstRun # ies
         \<and> list_all (\<lambda>e. \<not> step_event e) ies
         \<and> trace (snd (main E vad_config args_filepath w)) = trace w @ Print FirstRun # ies @ rest
         \<and> (case fst inst of
              Inl a \<Rightarrow> rest = [] \<and> fst (main E vad_config args_filepath w) = Inl a
            | Inr x \<Rightarrow> \<exists>es. rest = Wrote marker # es)"
    by auto
qed


subsection \<open>Concrete runs of the entry point\<close>

lemma talk_is_mp3: "endswith (lower ''talk.mp3'') ''.mp3''" "endswith (lower ''/app/Tvoice.mp3'') ''.mp3''"
  by code_simp+

lemma convert_talk:
  "convert_to_mp3 E ''talk.mp3'' w = (Inr ''talk.mp3'', w\<lparr>trace := trace w @ [Print (AlreadyMp3 ''talk.mp3'')]\<rparr>)"
  by (simp add: convert_to_mp3_def talk_is_mp3 print_def emit_def)

lemma talk_folders:
  "fst (splitext (basename ''talk.mp3'')) = ''talk''"
  by (simp add: splitext_def basename_def rfind_def Let_def)

lemma quiet_paths:
  "WHISPER_CLI quiet_env = ''/app/whisper.cpp/build/bin/whisper-cli''"
  "WHISPER_MODEL quiet_env = ''/app/whisper.cpp/models/ggml-large-v3-turbo.bin''"
  by (simp_all add: WHISPER_CLI_def WHISPER_MODEL_def resource_path_def quiet_env_def path_join_def)

lemma split_talk:
  "split_audio quiet_env DEFAULT_CONFIG ''talk.mp3''
      \<lparr>fsys = [(''talk.mp3'', File [])],
       trace = [Print ProcessingStart, Print (AlreadyMp3 ''talk.mp3'')]\<rparr> =
   (Inr (''split_audio/talk'', ''split_audio/talk/MP3'', ''split_audio/talk/TEXT''),
    \<lparr>fsys = [(''talk.mp3'', File []), (''split_audio'', Dir), (''split_audio/talk'', Dir),
             (''split_audio/talk/MP3'', Dir), (''split_audio/talk/TEXT'', Dir)],
     trace = [Print ProcessingStart, Print (AlreadyMp3 ''talk.mp3''), Exec FfmpegVersion,
              MadeDirs ''split_audio/talk/MP3'', MadeDirs ''split_audio/talk/TEXT'',
              Print (AlreadyMp3 ''talk.mp3''), Print LoadingVadModel, HubLoad,
              Print (LoadingAudio ''talk.mp3''), ReadAudio ''talk.mp3'', Print DetectingSpeech,
              GetSpeechTimestamps [JNum 500, JNum 700, JNum 18, JNum 10, JNum 0.6],
              Print (DetectedCount 0), Print SplitDone]\<rparr>)"
  by (simp add: split_audio_def check_ffmpeg_def os_system_def quiet_env_def talk_folders
        path_join_def makedirs_def mkdir_missing_def path_exists_def isdir_def convert_talk
        print_def emit_def vad_arguments_def DEFAULT_CONFIG_def dict_get_def enumerate_def Let_def)


lemma no_audio_files:
  "list_audio_files [(''talk.mp3'', File []), (''split_audio'', Dir), (''split_audio/talk'', Dir),
             (''split_audio/talk/MP3'', Dir), (''split_audio/talk/TEXT'', Dir)] ''split_audio/talk/MP3'' = []"
  by code_simp

lemma transcribe_talk:
  "transcribe_audio quiet_env ''split_audio/talk/MP3'' ''split_audio/talk/TEXT''
     \<lparr>fsys = [(''talk.mp3'', File []), (''split_audio'', Dir), (''split_audio/talk'', Dir),
             (''split_audio/talk/MP3'', Dir), (''split_audio/talk/TEXT'', Dir)],
      trace = t\<rparr> =
   (Inr (),
    \<lparr>fsys = [(''talk.mp3'', File []), (''split_audio'', Dir), (''split_audio/talk'', Dir),
             (''split_audio/talk/MP3'', Dir), (''split_audio/talk/TEXT'', Dir)],
     trace = t @ [Print (WhisperCount 0), Print WhisperStarting,
              Exec (WhisperCli ''/app/whisper.cpp/build/bin/whisper-cli''
                      ''/app/whisper.cpp/models/ggml-large-v3-turbo.bin'' []),
              Print (TranscribeDone ''split_audio/talk/TEXT'')]\<rparr>)"
  by (simp add: transcribe_audio_def no_audio_files quiet_paths path_exists_def isdir_def
        print_def emit_def Let_def)
     (simp add: quiet_env_def)

text \<open>
  Claim C1 as stated fails with a file argument: started on \<open>talk.mp3\<close> with the
  marker absent, the program runs the three steps to the end, installs nothing and writes
  no marker.
\<close>

theorem file_argument_skips_installation:
  "\<not> path_exists (fsys audio_world) marker
   \<and> main quiet_env DEFAULT_CONFIG (Some ''talk.mp3'') audio_world =
     (Inr (),
      \<lparr>fsys = [(''talk.mp3'', File []), (''split_audio'', Dir), (''split_audio/talk'', Dir),
               (''split_audio/talk/MP3'', Dir), (''split_audio/talk/TEXT'', Dir)],
       trace = [Print ProcessingStart, Print (AlreadyMp3 ''talk.mp3''), Exec FfmpegVersion,
                MadeDirs ''split_audio/talk/MP3'', MadeDirs ''split_audio/talk/TEXT'',
                Print (AlreadyMp3 ''talk.mp3''), Print LoadingVadModel, HubLoad,
                Print (LoadingAudio ''talk.mp3''), ReadAudio ''talk.mp3'', Print DetectingSpeech,
                GetSpeechTimestamps [JNum 500, JNum 700, JNum 18, JNum 10, JNum 0.6],
                Print (DetectedCount 0), Print SplitDone,
                Print (WhisperCount 0), Print WhisperStarting,
                Exec (WhisperCli ''/app/whisper.cpp/build/bin/whisper-cli''
                        ''/app/whisper.cpp/models/ggml-large-v3-turbo.bin'' []),
                Print (TranscribeDone ''split_audio/talk/TEXT''), Print ProcessingDone]\<rparr>)
   \<and> \<not> path_exists (fsys (snd (main quiet_env DEFAULT_CONFIG (Some ''talk.mp3'') audio_world))) marker
   \<and> Wrote marker \<notin> set (trace (snd (main quiet_env DEFAULT_CONFIG (Some ''talk.mp3'') audio_world)))
   \<and> Exec FfmpegVersion \<in> set (trace (snd (main quiet_env DEFAULT_CONFIG (Some ''talk.mp3'') audio_world)))"
proof -
  have m: "main quiet_env DEFAULT_CONFIG (Some ''talk.mp3'') audio_world =
     (Inr (),
      \<lparr>fsys = [(''talk.mp3'', File []), (''split_audio'', Dir), (''split_audio/talk'', Dir),
               (''split_audio/talk/MP3'', Dir), (''split_audio/talk/TEXT'', Dir)],
       trace = [Print ProcessingStart, Print (AlreadyMp3 ''talk.mp3''), Exec FfmpegVersion,
                MadeDirs ''split_audio/talk/MP3'', MadeDirs ''split_audio/talk/TEXT'',
                Print (AlreadyMp3 ''talk.mp3''), Print LoadingVadModel, HubLoad,
                Print (LoadingAudio ''talk.mp3''), ReadAudio ''talk.mp3'', Print DetectingSpeech,
                GetSpeechTimestamps [JNum 500, JNum 700, JNum 18, JNum 10, JNum 0.6],
                Print (DetectedCount 0), Print SplitDone,
                Print (WhisperCount 0), Print WhisperStarting,
                Exec (WhisperCli ''/app/whisper.cpp/build/bin/whisper-cli''
                        ''/app/whisper.cpp/models/ggml-large-v3-turbo.bin'' []),
                Print (TranscribeDone ''split_audio/talk/TEXT''), Print ProcessingDone]\<rparr>)"
    by (simp add: main_def choose_file_def truthy_def pipeline_def audio_world_def convert_talk
          print_def emit_def split_talk transcribe_talk)
  show ?thesis
    unfolding m by (simp add: path_exists_def audio_world_def marker_def)
qed

lemma built_install:
  "installation_process quiet_env (print FirstRun \<lparr>fsys = (''/app/whisper.cpp/build/bin/whisper-cli'', File []) # fs, trace = []\<rparr>) =
     (Inr True,
      \<lparr>fsys = (''/app/whisper.cpp/build/bin/whisper-cli'', File []) # fs,
       trace = [Print FirstRun, Print (Progress CheckingSystem 0),
                Print (Progress (OsArch ''Linux'' ''x86_64'') 5),
                Print (Progress InstallingPackages 0),
                Exec (AptGetUpdate False), Exec (AptGetInstall False),
                Print (Progress WhisperPresent 70), Print (Progress InstallDone 100)]\<rparr>)"
  by (simp add: installation_process_def check_and_install_system_dependencies_def
        check_whisper_cli_def quiet_paths subprocess_run_shell_def print_def emit_def
        path_exists_def Let_def)
     (simp add: quiet_env_def)


theorem first_run_installs_before_steps_witness:
  "\<not> truthy None
   \<and> \<not> path_exists (fsys default_file_world) marker
   \<and> (\<exists>ies es.
        trace (snd (main quiet_env DEFAULT_CONFIG None default_file_world)) =
          Print FirstRun # ies @ Wrote marker # es
        \<and> list_all (\<lambda>e. \<not> step_event e) ies)
   \<and> truthy (Some ''talk.mp3'')
   \<and> main quiet_env DEFAULT_CONFIG (Some ''talk.mp3'') audio_world =
       pipeline quiet_env DEFAULT_CONFIG ''talk.mp3'' audio_world"
proof -
  have a: "\<not> truthy None" by (simp add: truthy_def)
  have b: "\<not> path_exists (fsys default_file_world) marker"
    by (simp add: path_exists_def default_file_world_def marker_def)
  have i: "fst (installation_process quiet_env (print FirstRun default_file_world)) = Inr True"
    unfolding default_file_world_def by (simp add: built_install)
  from first_run_installs_before_steps [of None default_file_world quiet_env DEFAULT_CONFIG] a b
  obtain ies rest where
    q: "list_all (\<lambda>e. \<not> step_event e) ies"
    and t: "trace (snd (main quiet_env DEFAULT_CONFIG None default_file_world)) =
        trace default_file_world @ Print FirstRun # ies @ rest"
    and r: "(case fst (installation_process quiet_env (print FirstRun default_file_world)) of
              Inl a \<Rightarrow> rest = [] \<and> fst (main quiet_env DEFAULT_CONFIG None default_file_world) = Inl a
            | Inr x \<Rightarrow> \<exists>es. rest = Wrote marker # es)"
    by blast
  from r obtain es where "rest = Wrote marker # es" unfolding i by auto
  with t q have e: "\<exists>ies es.
        trace (snd (main quiet_env DEFAULT_CONFIG None default_file_world)) =
          Print FirstRun # ies @ Wrote marker # es
        \<and> list_all (\<lambda>e. \<not> step_event e) ies"
    by (auto simp: default_file_world_def)
  have c: "truthy (Some ''talk.mp3'')" by (simp add: truthy_def)
  with first_run_installs_before_steps [of "Some ''talk.mp3''" audio_world quiet_env DEFAULT_CONFIG]
  have "main quiet_env DEFAULT_CONFIG (Some ''talk.mp3'') audio_world =
       pipeline quiet_env DEFAULT_CONFIG ''talk.mp3'' audio_world"
    by simp
  with a b e c show ?thesis by blast
qed

end
